theory Spec2Isabelle
  imports Complex_Main "HOL-Library.AList" "HOL-Library.Sublist"
begin

section \<open>Data frames\<close>

text \<open>
  A float64 cell of a pandas column is either a number or \<open>NaN\<close>, the missing marker.
  The elementwise comparisons \<open><\<close> and \<open>>\<close> of two columns are false on every row
  where either side is \<open>NaN\<close>.
\<close>

datatype cell = NaN | Val real

fun cell_lt :: "cell \<Rightarrow> cell \<Rightarrow> bool" where
  "cell_lt (Val a) (Val b) = (a < b)"
| "cell_lt _ _ = False"

fun cell_gt :: "cell \<Rightarrow> cell \<Rightarrow> bool" where
  "cell_gt (Val a) (Val b) = (a > b)"
| "cell_gt _ _ = False"

text \<open>A Python exception, with \<open>str(e)\<close>; a computation that may raise returns \<open>exn + 'a\<close>.\<close>

datatype exn = Exception string

text \<open>
  One row of the provider's history frame: the two columns the program reads by name, and
  the provider's remaining columns (open, high, low, ...) in \<open>Other\<close>.
\<close>

record bar =
  Close :: cell
  Volume :: cell
  Other :: "cell list"

record indicator_row = bar +
  RSI :: cell
  MA_20 :: cell
  MA_50 :: cell
  MACD :: cell
  MACD_signal :: cell

record signal_row = indicator_row +
  Signal :: int
  Position :: "int option"

section \<open>TradingStrategy\<close>

text \<open>
  The indicator library is not part of the repository: its three functions are parameters.
  Each takes the close column (and a time period) and returns a column, or raises.
\<close>

record talib =
  talib_RSI :: "cell list \<Rightarrow> nat \<Rightarrow> exn + cell list"
  talib_SMA :: "cell list \<Rightarrow> nat \<Rightarrow> exn + cell list"
  talib_MACD :: "cell list \<Rightarrow> exn + (cell list \<times> cell list \<times> cell list)"

text \<open>
  \<open>df[name] = column\<close>: row \<open>i\<close> takes the column's \<open>i\<close>-th value; a row the column
  does not reach stays missing.
\<close>

definition at_row :: "cell list \<Rightarrow> nat \<Rightarrow> cell" where
  "at_row col i = (if i < length col then col ! i else NaN)"

definition with_indicators ::
  "bar list \<Rightarrow> cell list \<Rightarrow> cell list \<Rightarrow> cell list \<Rightarrow> cell list \<Rightarrow> cell list \<Rightarrow> indicator_row list" where
  "with_indicators df rsi ma20 ma50 macd macd_signal =
     map (\<lambda>i. \<lparr>Close = Close (df ! i), Volume = Volume (df ! i), Other = Other (df ! i),
                RSI = at_row rsi i, MA_20 = at_row ma20 i, MA_50 = at_row ma50 i,
                MACD = at_row macd i, MACD_signal = at_row macd_signal i\<rparr>)
         [0..<length df]"

definition calculate_indicators :: "talib \<Rightarrow> bar list \<Rightarrow> exn + indicator_row list" where
  "calculate_indicators T df =
     (let close = map Close df in
      case talib_RSI T close 14 of Inl e \<Rightarrow> Inl e | Inr rsi \<Rightarrow>
      (case talib_SMA T close 20 of Inl e \<Rightarrow> Inl e | Inr ma20 \<Rightarrow>
      (case talib_SMA T close 50 of Inl e \<Rightarrow> Inl e | Inr ma50 \<Rightarrow>
      (case talib_MACD T close of Inl e \<Rightarrow> Inl e | Inr (macd, macd_signal, hist) \<Rightarrow>
         Inr (with_indicators df rsi ma20 ma50 macd macd_signal)))))"

text \<open>The two boolean masks of \<open>generate_signals\<close>, one entry per row.\<close>

definition buy_row :: "'a indicator_row_scheme \<Rightarrow> bool" where
  "buy_row r = (cell_lt (RSI r) (Val 30) \<and> cell_gt (MA_20 r) (MA_50 r))"

definition sell_row :: "'a indicator_row_scheme \<Rightarrow> bool" where
  "sell_row r = (cell_gt (RSI r) (Val 70) \<or> cell_lt (MA_20 r) (MA_50 r))"

definition buy_condition :: "indicator_row list \<Rightarrow> bool list" where
  "buy_condition df = map buy_row df"

definition sell_condition :: "indicator_row list \<Rightarrow> bool list" where
  "sell_condition df = map sell_row df"

text \<open>\<open>df.loc[mask, col] = v\<close>: the rows the mask selects take \<open>v\<close>, the others keep their value.\<close>

definition loc_assign :: "bool list \<Rightarrow> 'a \<Rightarrow> 'a list \<Rightarrow> 'a list" where
  "loc_assign sel v col = map (\<lambda>(m, x). if m then v else x) (zip sel col)"

text \<open>
  \<open>Series.replace(to_replace=0, value=None)\<close> as pandas 1.4 and later read it (the explicit
  \<open>None\<close> is the replacement value), and \<open>Series.ffill()\<close>: a missing entry takes the last
  entry before it that is not missing, and stays missing when there is none.
\<close>

definition replace_zero :: "int list \<Rightarrow> int option list" where
  "replace_zero col = map (\<lambda>s. if s = 0 then None else Some s) col"

fun ffill_from :: "'a option \<Rightarrow> 'a option list \<Rightarrow> 'a option list" where
  "ffill_from c [] = []"
| "ffill_from c (None # xs) = c # ffill_from c xs"
| "ffill_from c (Some v # xs) = Some v # ffill_from (Some v) xs"

definition ffill :: "'a option list \<Rightarrow> 'a option list" where
  "ffill xs = ffill_from None xs"

definition signal_column :: "indicator_row list \<Rightarrow> int list" where
  "signal_column df =
     (let signal0 = replicate (length df) 0;
          signal1 = loc_assign (buy_condition df) 1 signal0
      in loc_assign (sell_condition df) (- 1) signal1)"

definition position_column :: "int list \<Rightarrow> int option list" where
  "position_column signal = ffill (replace_zero signal)"

definition with_signals :: "indicator_row list \<Rightarrow> int list \<Rightarrow> int option list \<Rightarrow> signal_row list" where
  "with_signals df signal position =
     map (\<lambda>(r, s, p). \<lparr>Close = Close r, Volume = Volume r, Other = Other r,
                RSI = RSI r, MA_20 = MA_20 r, MA_50 = MA_50 r,
                MACD = MACD r, MACD_signal = MACD_signal r,
                Signal = s, Position = p\<rparr>)
         (zip df (zip signal position))"

text \<open>The body of the loop of \<open>generate_signals\<close> for one symbol's frame.\<close>

definition generate_signals_df :: "talib \<Rightarrow> bar list \<Rightarrow> exn + signal_row list" where
  "generate_signals_df T df0 =
     (case calculate_indicators T df0 of
        Inl e \<Rightarrow> Inl e
      | Inr df \<Rightarrow>
          (let signal = signal_column df
           in Inr (with_signals df signal (position_column signal))))"

section \<open>Effects\<close>

text \<open>
  What a run does to the outside world is a list of events, oldest first: the pauses, the log
  records (one constructor per logging statement of the source, with the values it
  interpolates) and the calls to the external services.
\<close>

datatype level = INFO | WARNING | ERROR

datatype msg =
    Attempting string string
  | NoInfo string
  | InfoRetrieved string
  | InfoFailed string string
  | RateLimited
  | Retrieved nat string string
  | NoHistory string string
  | FetchError string string string
  | Traceback string string
  | FailedAllPeriods string
  | NoDataFetched
  | SignalsGenerated string
  | NotEnoughData string
  | ModelTrained string cell
  | CredentialsNotFound
  | SheetsInitFailed string
  | SkipTradeLogging
  | TradesLogged
  | TradeLoggingError string
  | SkipPortfolioLogging
  | PortfolioLogged
  | PortfolioLoggingError string
  | SkipAlert
  | AlertSent
  | AlertFailed string
  | AlertError string
  | Starting
  | Aborting
  | Fetched "string list"
  | Completed

text \<open>A spreadsheet cell as the program writes it: text, an integer or a float.\<close>

datatype sheet_value = TextV string | IntV int | FloatV cell

datatype event =
    Sleep nat
  | Log level msg
  | TickerInfo string
  | TickerHistory string string
  | TreeFit string
  | Worksheet string
  | GetAllValues string
  | AppendRows string "sheet_value list list"
  | AppendRow string "sheet_value list"
  | Post string string string

text \<open>
  \<open>try: body except Exception as e: handler\<close>: what the body raises goes to the handler,
  with the state the body left.
\<close>

definition try_except ::
  "('s \<Rightarrow> (exn + 'a) \<times> 's) \<Rightarrow> (exn \<Rightarrow> 's \<Rightarrow> (exn + 'a) \<times> 's) \<Rightarrow> 's \<Rightarrow> (exn + 'a) \<times> 's" where
  "try_except body handler st =
     (case body st of (Inl e, st') \<Rightarrow> handler e st' | (Inr x, st') \<Rightarrow> (Inr x, st'))"

text \<open>\<open>df.iloc[-1]\<close>: the last row; an \<open>IndexError\<close> on a frame without rows.\<close>

definition iloc_last :: "'a list \<Rightarrow> exn + 'a" where
  "iloc_last df =
     (if df = [] then Inl (Exception ''single positional indexer is out-of-bounds'')
      else Inr (last df))"

section \<open>MLModel\<close>

record labelled_row = signal_row +
  Target :: int

text \<open>\<open>Series.shift(-1)\<close>: every row takes the value of the row after it, the last row \<open>NaN\<close>.\<close>

definition shift_up :: "cell list \<Rightarrow> cell list" where
  "shift_up col = (case col of [] \<Rightarrow> [] | x # xs \<Rightarrow> xs @ [NaN])"

text \<open>\<open>np.where(df['Close'].shift(-1) > df['Close'], 1, 0)\<close>.\<close>

definition target_column :: "cell list \<Rightarrow> int list" where
  "target_column close = map (\<lambda>(n, c). if cell_gt n c then 1 else 0) (zip (shift_up close) close)"

definition with_target :: "signal_row list \<Rightarrow> int list \<Rightarrow> labelled_row list" where
  "with_target df target =
     map (\<lambda>(r, t). \<lparr>Close = Close r, Volume = Volume r, Other = Other r,
                RSI = RSI r, MA_20 = MA_20 r, MA_50 = MA_50 r,
                MACD = MACD r, MACD_signal = MACD_signal r,
                Signal = Signal r, Position = Position r, Target = t\<rparr>)
         (zip df target)"

text \<open>
  \<open>df.dropna()\<close> drops every row with a missing cell in any column. The integer columns
  Signal and Target have none; a Position of \<open>None\<close> is missing.
\<close>

definition has_na :: "'a signal_row_scheme \<Rightarrow> bool" where
  "has_na r \<longleftrightarrow>
     Close r = NaN \<or> Volume r = NaN \<or> NaN \<in> set (Other r) \<or> RSI r = NaN \<or> MA_20 r = NaN \<or>
     MA_50 r = NaN \<or> MACD r = NaN \<or> MACD_signal r = NaN \<or> Position r = None"

definition dropna :: "labelled_row list \<Rightarrow> labelled_row list" where
  "dropna df = filter (\<lambda>r. \<not> has_na r) df"

definition fillna0 :: "cell \<Rightarrow> cell" where
  "fillna0 c = (case c of NaN \<Rightarrow> Val 0 | Val x \<Rightarrow> Val x)"

text \<open>The feature columns, in the source's order, after \<open>fillna(0)\<close>.\<close>

definition feature_row :: "'a signal_row_scheme \<Rightarrow> cell list" where
  "feature_row r = map fillna0 [RSI r, MACD r, Volume r, MA_20 r, MA_50 r]"

definition prepare_data :: "signal_row list \<Rightarrow> cell list list \<times> int list" where
  "prepare_data df0 =
     (let df = dropna (with_target df0 (target_column (map Close df0)))
      in (map feature_row df, map Target df))"

text \<open>
  The learning library is not part of the repository. Its splitter (with the fixed test size
  and seed), the tree's \<open>fit\<close> and the tree's \<open>predict\<close> are parameters; each may raise.
  The splitter takes the rows of \<open>X\<close> paired with their labels and returns the training pairs
  and the test pairs.
\<close>

record 'm sklearn =
  train_test_split ::
    "(cell list \<times> int) list \<Rightarrow> exn + ((cell list \<times> int) list \<times> (cell list \<times> int) list)"
  tree_fit :: "cell list list \<Rightarrow> int list \<Rightarrow> exn + 'm"
  tree_predict :: "'m \<Rightarrow> cell list list \<Rightarrow> exn + int list"

text \<open>
  The library's \<open>accuracy_score\<close>, by its documentation: the fraction of positions at which
  the prediction equals the label (the spec's held-out accuracy: the fraction of correct
  predictions). It raises on columns of different lengths and on empty columns. The quotient
  is taken in the reals; the library returns the float nearest to it.
\<close>

definition accuracy_score :: "int list \<Rightarrow> int list \<Rightarrow> exn + cell" where
  "accuracy_score y_true y_pred =
     (if length y_true \<noteq> length y_pred
      then Inl (Exception ''Found input variables with inconsistent numbers of samples'')
      else if y_true = [] then Inl (Exception ''Found empty input array'')
      else Inr (Val (real (length (filter (\<lambda>(t, p). t = p) (zip y_true y_pred)))
                     / real (length y_true))))"

record 'm trainer =
  models :: "(string \<times> 'm) list"
  accuracies :: "(string \<times> cell) list"
  trainer_events :: "event list"

text \<open>The body of the loop of \<open>train_models\<close> for one symbol.\<close>

definition train_one ::
  "'m sklearn \<Rightarrow> string \<Rightarrow> signal_row list \<Rightarrow> 'm trainer \<Rightarrow> (exn + unit) \<times> 'm trainer" where
  "train_one sk symbol df st =
     (let (X, y) = prepare_data df in
      if X = [] \<or> y = []
      then (Inr (), st\<lparr>trainer_events := trainer_events st @ [Log WARNING (NotEnoughData symbol)]\<rparr>)
      else
        (case train_test_split sk (zip X y) of
           Inl e \<Rightarrow> (Inl e, st)
         | Inr (train, test) \<Rightarrow>
             (let st1 = st\<lparr>trainer_events := trainer_events st @ [TreeFit symbol]\<rparr> in
              case tree_fit sk (map fst train) (map snd train) of
                Inl e \<Rightarrow> (Inl e, st1)
              | Inr model \<Rightarrow>
                  (case tree_predict sk model (map fst test) of
                     Inl e \<Rightarrow> (Inl e, st1)
                   | Inr y_pred \<Rightarrow>
                       (case accuracy_score (map snd test) y_pred of
                          Inl e \<Rightarrow> (Inl e, st1)
                        | Inr accuracy \<Rightarrow>
                            (Inr (),
                             st1\<lparr>models := AList.update symbol model (models st1),
                                 accuracies := AList.update symbol accuracy (accuracies st1),
                                 trainer_events := trainer_events st1 @
                                   [Log INFO (ModelTrained symbol accuracy)]\<rparr>))))))"

fun train_models ::
  "'m sklearn \<Rightarrow> (string \<times> signal_row list) list \<Rightarrow> 'm trainer \<Rightarrow> (exn + unit) \<times> 'm trainer" where
  "train_models sk [] st = (Inr (), st)"
| "train_models sk ((symbol, df) # rest) st =
     (case train_one sk symbol df st of
        (Inl e, st') \<Rightarrow> (Inl e, st')
      | (Inr u, st') \<Rightarrow> train_models sk rest st')"

section \<open>DataFetcher\<close>

text \<open>
  The market-data provider is outside the repository. Its answer to the \<open>n\<close>-th call made to
  it (counting both kinds of call) is a parameter: \<open>ticker.info\<close> returns a dictionary, of
  which only the truth value is read, or raises; \<open>ticker.history(period)\<close> returns a frame or
  raises. Building the \<open>Ticker\<close> object calls nothing. A frame is empty when it has no row.
\<close>

record provider =
  ticker_info :: "nat \<Rightarrow> string \<Rightarrow> exn + bool"
  ticker_history :: "nat \<Rightarrow> string \<Rightarrow> string \<Rightarrow> exn + bar list"

record fetcher =
  data :: "(string \<times> bar list) list"
  calls :: nat
  fetch_events :: "event list"

definition emit :: "event list \<Rightarrow> fetcher \<Rightarrow> fetcher" where
  "emit es st = st\<lparr>fetch_events := fetch_events st @ es\<rparr>"

text \<open>\<open>"429" in str(e) or "Too Many Requests" in str(e)\<close>.\<close>

definition is_rate_limit :: "string \<Rightarrow> bool" where
  "is_rate_limit m \<longleftrightarrow> sublist ''429'' m \<or> sublist ''Too Many Requests'' m"

text \<open>How a piece of the loop body ends: it goes on, or it leaves through \<open>continue\<close> or \<open>break\<close>.\<close>

datatype flow = Go | Continue | Break

definition call_info :: "provider \<Rightarrow> string \<Rightarrow> fetcher \<Rightarrow> (exn + bool) \<times> fetcher" where
  "call_info P symbol st =
     (ticker_info P (calls st) symbol,
      st\<lparr>calls := Suc (calls st), fetch_events := fetch_events st @ [TickerInfo symbol]\<rparr>)"

definition call_history :: "provider \<Rightarrow> string \<Rightarrow> string \<Rightarrow> fetcher \<Rightarrow> (exn + bar list) \<times> fetcher" where
  "call_history P symbol period st =
     (ticker_history P (calls st) symbol period,
      st\<lparr>calls := Suc (calls st), fetch_events := fetch_events st @ [TickerHistory symbol period]\<rparr>)"

text \<open>The inner \<open>try\<close> block and its handler.\<close>

definition info_try :: "provider \<Rightarrow> string \<Rightarrow> fetcher \<Rightarrow> (exn + flow) \<times> fetcher" where
  "info_try P symbol st =
     (case call_info P symbol st of
        (Inl e, st1) \<Rightarrow> (Inl e, st1)
      | (Inr info, st1) \<Rightarrow>
          if \<not> info then (Inr Continue, emit [Log WARNING (NoInfo symbol)] st1)
          else (Inr Go, emit [Log INFO (InfoRetrieved symbol)] st1))"

definition info_except :: "string \<Rightarrow> exn \<Rightarrow> fetcher \<Rightarrow> (exn + flow) \<times> fetcher" where
  "info_except symbol e st =
     (case e of Exception m \<Rightarrow>
        (let st1 = emit [Log WARNING (InfoFailed symbol m)] st in
         if is_rate_limit m then (Inr Continue, emit [Log INFO RateLimited, Sleep 5] st1)
         else (Inr Go, st1)))"

text \<open>The outer \<open>try\<close> block and its handler: one pass of the loop over the periods.\<close>

definition attempt_try :: "provider \<Rightarrow> string \<Rightarrow> string \<Rightarrow> fetcher \<Rightarrow> (exn + flow) \<times> fetcher" where
  "attempt_try P symbol period st =
     (case try_except (info_try P symbol) (info_except symbol)
             (emit [Log INFO (Attempting symbol period)] st) of
        (Inl e, st1) \<Rightarrow> (Inl e, st1)
      | (Inr Continue, st1) \<Rightarrow> (Inr Continue, st1)
      | (Inr Break, st1) \<Rightarrow> (Inr Break, st1)
      | (Inr Go, st1) \<Rightarrow>
          (case call_history P symbol period st1 of
             (Inl e, st2) \<Rightarrow> (Inl e, st2)
           | (Inr hist, st2) \<Rightarrow>
               (let st3 = emit [Log INFO (Retrieved (length hist) symbol period)] st2 in
                if hist \<noteq> []
                then (Inr Break, st3\<lparr>data := AList.update symbol hist (data st3)\<rparr>)
                else (Inr Go, emit [Log WARNING (NoHistory symbol period)] st3))))"

definition attempt_except :: "string \<Rightarrow> string \<Rightarrow> exn \<Rightarrow> fetcher \<Rightarrow> (exn + flow) \<times> fetcher" where
  "attempt_except symbol period e st =
     (case e of Exception m \<Rightarrow>
        (let st1 = emit [Log ERROR (FetchError symbol period m)] st in
         if is_rate_limit m then (Inr Continue, emit [Log INFO RateLimited, Sleep 5] st1)
         else (Inr Go, emit [Log ERROR (Traceback symbol period)] st1)))"

definition attempt :: "provider \<Rightarrow> string \<Rightarrow> string \<Rightarrow> fetcher \<Rightarrow> (exn + flow) \<times> fetcher" where
  "attempt P symbol period =
     try_except (attempt_try P symbol period) (attempt_except symbol period)"

text \<open>
  \<open>for period in periods_to_try\<close>: \<open>break\<close> leaves the loop, anything else goes to the next
  period. The result is \<open>symbol_data_fetched\<close>.
\<close>

fun try_periods :: "provider \<Rightarrow> string \<Rightarrow> string list \<Rightarrow> fetcher \<Rightarrow> (exn + bool) \<times> fetcher" where
  "try_periods P symbol [] st = (Inr False, st)"
| "try_periods P symbol (period # rest) st =
     (case attempt P symbol period st of
        (Inl e, st') \<Rightarrow> (Inl e, st')
      | (Inr Break, st') \<Rightarrow> (Inr True, st')
      | (Inr Go, st') \<Rightarrow> try_periods P symbol rest st'
      | (Inr Continue, st') \<Rightarrow> try_periods P symbol rest st')"

text \<open>\<open>for i, symbol in enumerate(self.symbols)\<close>.\<close>

fun fetch_symbols ::
  "provider \<Rightarrow> string list \<Rightarrow> nat \<Rightarrow> string list \<Rightarrow> fetcher \<Rightarrow> (exn + unit) \<times> fetcher" where
  "fetch_symbols P periods i [] st = (Inr (), st)"
| "fetch_symbols P periods i (symbol # rest) st =
     (case try_periods P symbol periods (if i > 0 then emit [Sleep 2] st else st) of
        (Inl e, st') \<Rightarrow> (Inl e, st')
      | (Inr fetched, st') \<Rightarrow>
          fetch_symbols P periods (Suc i) rest
            (if \<not> fetched then emit [Log ERROR (FailedAllPeriods symbol)] st' else st'))"

text \<open>
  \<open>fetch_data\<close>, for a fetcher with the given period and symbols, when the provider has
  answered \<open>n\<close> calls before. The result is the returned dictionary, or what the call raises.
\<close>

definition fetch_data ::
  "provider \<Rightarrow> string \<Rightarrow> string list \<Rightarrow> nat \<Rightarrow> (exn + (string \<times> bar list) list) \<times> fetcher" where
  "fetch_data P period symbols n =
     (case fetch_symbols P [period, ''3mo'', ''1mo'', ''1y''] 0 symbols
             \<lparr>data = [], calls = n, fetch_events = []\<rparr> of
        (Inl e, st) \<Rightarrow> (Inl e, st)
      | (Inr u, st) \<Rightarrow>
          (Inr (data st), if data st = [] then emit [Log ERROR NoDataFetched] st else st))"

section \<open>GoogleSheetsLogger and TelegramNotifier\<close>

text \<open>
  The spreadsheet service, the messaging endpoint, the file system, the clock, Python's
  \<open>float()\<close> and its formatting of a float by a format specification (\<open>.2f\<close>, \<open>.2%\<close>) are
  parameters. The service calls are indexed by the number of calls made
  before, and each may raise. \<open>open_spreadsheet\<close> stands for the three calls that build the
  client from the credentials file and open the document.
\<close>

record services =
  path_exists :: "string \<Rightarrow> bool"
  open_spreadsheet :: "string \<Rightarrow> exn + unit"
  now :: "nat \<Rightarrow> string"
  worksheet :: "nat \<Rightarrow> string \<Rightarrow> exn + unit"
  get_all_values :: "nat \<Rightarrow> string \<Rightarrow> exn + string list list"
  append_rows :: "nat \<Rightarrow> string \<Rightarrow> sheet_value list list \<Rightarrow> exn + unit"
  append_row :: "nat \<Rightarrow> string \<Rightarrow> sheet_value list \<Rightarrow> exn + unit"
  requests_post :: "nat \<Rightarrow> string \<Rightarrow> string \<Rightarrow> string \<Rightarrow> exn + (nat \<times> string)"
  parse_float :: "string \<Rightarrow> exn + cell"
  format_float :: "string \<Rightarrow> cell \<Rightarrow> string"

text \<open>
  The two reporting objects: \<open>sheet\<close> is false when \<open>self.sheet\<close> is \<open>None\<close>; \<open>base_url\<close> and
  \<open>chat_id\<close> are \<open>None\<close> or a string.
\<close>

record reporter =
  sheet :: bool
  base_url :: "string option"
  chat_id :: "string option"
  api_calls :: nat
  report_events :: "event list"

definition truthy :: "string option \<Rightarrow> bool" where
  "truthy s = (case s of None \<Rightarrow> False | Some x \<Rightarrow> x \<noteq> [])"

definition report :: "event list \<Rightarrow> reporter \<Rightarrow> reporter" where
  "report es st = st\<lparr>report_events := report_events st @ es\<rparr>"

text \<open>\<open>GoogleSheetsLogger.__init__\<close>: the value of \<open>self.sheet\<close> and what is logged.\<close>

definition GoogleSheetsLogger :: "services \<Rightarrow> string \<Rightarrow> bool \<times> event list" where
  "GoogleSheetsLogger S credentials_file =
     (if credentials_file = [] \<or> \<not> path_exists S credentials_file
      then (False, [Log WARNING CredentialsNotFound])
      else (case open_spreadsheet S credentials_file of
              Inl (Exception m) \<Rightarrow> (False, [Log ERROR (SheetsInitFailed m)])
            | Inr u \<Rightarrow> (True, [])))"

text \<open>\<open>TelegramNotifier.__init__\<close>: the value of \<open>self.base_url\<close>.\<close>

definition TelegramNotifier :: "string option \<Rightarrow> string option" where
  "TelegramNotifier bot_token =
     (if truthy bot_token
      then Some (''https://api.telegram.org/bot'' @ the bot_token @ ''/sendMessage'')
      else None)"

definition nan_to_zero :: "cell \<Rightarrow> sheet_value" where
  "nan_to_zero c = (case c of NaN \<Rightarrow> IntV 0 | Val x \<Rightarrow> FloatV (Val x))"

definition trade_row :: "string \<Rightarrow> string \<Rightarrow> signal_row \<Rightarrow> sheet_value list" where
  "trade_row stamp symbol last_signal =
     [TextV stamp, TextV symbol, IntV (Signal last_signal), FloatV (Close last_signal),
      nan_to_zero (RSI last_signal), nan_to_zero (MA_20 last_signal),
      nan_to_zero (MA_50 last_signal)]"

fun trade_rows :: "string \<Rightarrow> (string \<times> signal_row list) list \<Rightarrow> exn + sheet_value list list" where
  "trade_rows stamp [] = Inr []"
| "trade_rows stamp ((symbol, df) # rest) =
     (case iloc_last df of
        Inl e \<Rightarrow> Inl e
      | Inr last_signal \<Rightarrow>
          (case trade_rows stamp rest of
             Inl e \<Rightarrow> Inl e
           | Inr rows \<Rightarrow> Inr (trade_row stamp symbol last_signal # rows)))"

definition call_worksheet :: "services \<Rightarrow> string \<Rightarrow> reporter \<Rightarrow> (exn + unit) \<times> reporter" where
  "call_worksheet S title st =
     (worksheet S (api_calls st) title,
      st\<lparr>api_calls := Suc (api_calls st), report_events := report_events st @ [Worksheet title]\<rparr>)"

definition call_get_all_values ::
  "services \<Rightarrow> string \<Rightarrow> reporter \<Rightarrow> (exn + string list list) \<times> reporter" where
  "call_get_all_values S title st =
     (get_all_values S (api_calls st) title,
      st\<lparr>api_calls := Suc (api_calls st), report_events := report_events st @ [GetAllValues title]\<rparr>)"

definition call_append_rows ::
  "services \<Rightarrow> string \<Rightarrow> sheet_value list list \<Rightarrow> reporter \<Rightarrow> (exn + unit) \<times> reporter" where
  "call_append_rows S title rows st =
     (append_rows S (api_calls st) title rows,
      st\<lparr>api_calls := Suc (api_calls st),
         report_events := report_events st @ [AppendRows title rows]\<rparr>)"

definition call_append_row ::
  "services \<Rightarrow> string \<Rightarrow> sheet_value list \<Rightarrow> reporter \<Rightarrow> (exn + unit) \<times> reporter" where
  "call_append_row S title row st =
     (append_row S (api_calls st) title row,
      st\<lparr>api_calls := Suc (api_calls st),
         report_events := report_events st @ [AppendRow title row]\<rparr>)"

text \<open>\<open>log_trades\<close>: the \<open>try\<close> block, and the method.\<close>

definition log_trades_try ::
  "services \<Rightarrow> (string \<times> signal_row list) list \<Rightarrow> reporter \<Rightarrow> (exn + unit) \<times> reporter" where
  "log_trades_try S signals st =
     (case call_worksheet S ''Trade_Log'' st of
        (Inl e, st1) \<Rightarrow> (Inl e, st1)
      | (Inr u, st1) \<Rightarrow>
          (case trade_rows (now S (api_calls st1)) signals of
             Inl e \<Rightarrow> (Inl e, st1)
           | Inr trade_data \<Rightarrow>
               (case call_append_rows S ''Trade_Log'' trade_data st1 of
                  (Inl e, st2) \<Rightarrow> (Inl e, st2)
                | (Inr u, st2) \<Rightarrow> (Inr (), report [Log INFO TradesLogged] st2))))"

definition log_trades ::
  "services \<Rightarrow> (string \<times> signal_row list) list \<Rightarrow> reporter \<Rightarrow> (exn + unit) \<times> reporter" where
  "log_trades S signals st =
     (if \<not> sheet st then (Inr (), report [Log INFO SkipTradeLogging] st)
      else try_except (log_trades_try S signals)
             (\<lambda>e st'. case e of Exception m \<Rightarrow>
                (Inr (), report [Log ERROR (TradeLoggingError m)] st'))
             st)"

text \<open>
  Float arithmetic on cells: \<open>NaN\<close> propagates. The one division of the source whose divisor
  can be zero is guarded by the truth value of the divisor; \<open>NaN\<close> is true, zero is false.
\<close>

definition cell_add :: "cell \<Rightarrow> cell \<Rightarrow> cell" where
  "cell_add a b = (case (a, b) of (Val x, Val y) \<Rightarrow> Val (x + y) | _ \<Rightarrow> NaN)"

definition cell_sub :: "cell \<Rightarrow> cell \<Rightarrow> cell" where
  "cell_sub a b = (case (a, b) of (Val x, Val y) \<Rightarrow> Val (x - y) | _ \<Rightarrow> NaN)"

definition cell_div :: "cell \<Rightarrow> cell \<Rightarrow> cell" where
  "cell_div a b = (case (a, b) of (Val x, Val y) \<Rightarrow> Val (x / y) | _ \<Rightarrow> NaN)"

definition cell_sum :: "cell list \<Rightarrow> cell" where
  "cell_sum cs = foldl cell_add (Val 0) cs"

definition cell_true :: "cell \<Rightarrow> bool" where
  "cell_true c = (c \<noteq> Val 0)"

text \<open>The last row of every frame, in the dictionary's order; the first empty frame raises.\<close>

fun last_rows :: "(string \<times> signal_row list) list \<Rightarrow> exn + signal_row list" where
  "last_rows [] = Inr []"
| "last_rows ((symbol, df) # rest) =
     (case iloc_last df of
        Inl e \<Rightarrow> Inl e
      | Inr r \<Rightarrow> (case last_rows rest of Inl e \<Rightarrow> Inl e | Inr rs \<Rightarrow> Inr (r # rs)))"

text \<open>
  The inner \<open>try\<close> of \<open>log_portfolio\<close> with its bare \<open>except: pass\<close>: the previous portfolio
  value, 0 when anything fails.
\<close>

definition previous_value :: "services \<Rightarrow> reporter \<Rightarrow> cell \<times> reporter" where
  "previous_value S st =
     (case call_get_all_values S ''Portfolio_Summary'' st of
        (Inl e, st1) \<Rightarrow> (Val 0, st1)
      | (Inr all_values, st1) \<Rightarrow>
          (if length all_values > 1
           then (if length (last all_values) > 6
                 then (case parse_float S (last all_values ! 6) of
                         Inl e \<Rightarrow> (Val 0, st1)
                       | Inr v \<Rightarrow> (v, st1))
                 else (Val 0, st1))
           else (Val 0, st1)))"

text \<open>
  The summary row: the time stamp, four counts, and the four computed floats as the text the
  f-strings make of them.
\<close>

definition summary_row ::
  "services \<Rightarrow> string \<Rightarrow> signal_row list \<Rightarrow> (string \<times> cell) list \<Rightarrow> cell \<Rightarrow> sheet_value list" where
  "summary_row S stamp lasts accs previous =
     (let total_symbols = int (length lasts);
          buy_signals = int (length (filter (\<lambda>r. Signal r = 1) lasts));
          sell_signals = int (length (filter (\<lambda>r. Signal r = - 1) lasts));
          hold_signals = total_symbols - buy_signals - sell_signals;
          avg_accuracy = (if accs \<noteq> []
             then cell_div (cell_sum (map snd accs)) (Val (real (length accs))) else Val 0);
          portfolio_value = cell_sum (map Close lasts);
          daily_change = cell_sub portfolio_value previous;
          daily_change_pct = (if cell_true previous
             then (case cell_div daily_change previous of NaN \<Rightarrow> NaN | Val x \<Rightarrow> Val (x * 100))
             else Val 0)
      in [TextV stamp, IntV total_symbols, IntV buy_signals, IntV sell_signals, IntV hold_signals,
          TextV (format_float S ''.2%'' avg_accuracy),
          TextV (format_float S ''.2f'' portfolio_value),
          TextV (format_float S ''.2f'' daily_change),
          TextV (format_float S ''.2f'' daily_change_pct @ ''%'')])"

definition headers :: "sheet_value list" where
  "headers = map TextV [''Timestamp'', ''Total Symbols'', ''Buy Signals'', ''Sell Signals'',
     ''Hold Signals'', ''Avg Accuracy'', ''Portfolio Value'', ''Daily Change'', ''Daily Change %'']"

definition log_portfolio_try ::
  "services \<Rightarrow> (string \<times> signal_row list) list \<Rightarrow> (string \<times> cell) list \<Rightarrow> reporter \<Rightarrow>
   (exn + unit) \<times> reporter" where
  "log_portfolio_try S signals accs st =
     (case call_worksheet S ''Portfolio_Summary'' st of
        (Inl e, st1) \<Rightarrow> (Inl e, st1)
      | (Inr u, st1) \<Rightarrow>
          (case previous_value S st1 of (previous, st2) \<Rightarrow>
             (case last_rows signals of
                Inl e \<Rightarrow> (Inl e, st2)
              | Inr lasts \<Rightarrow>
                  (let summary_data = summary_row S (now S (api_calls st2)) lasts accs previous in
                   case call_get_all_values S ''Portfolio_Summary'' st2 of
                     (Inl e, st3) \<Rightarrow> (Inl e, st3)
                   | (Inr all_values, st3) \<Rightarrow>
                       (case (if all_values = []
                              then call_append_row S ''Portfolio_Summary'' headers st3
                              else (Inr (), st3)) of
                          (Inl e, st4) \<Rightarrow> (Inl e, st4)
                        | (Inr u, st4) \<Rightarrow>
                            (case call_append_row S ''Portfolio_Summary'' summary_data st4 of
                               (Inl e, st5) \<Rightarrow> (Inl e, st5)
                             | (Inr u, st5) \<Rightarrow>
                                 (Inr (), report [Log INFO PortfolioLogged] st5)))))))"

definition log_portfolio ::
  "services \<Rightarrow> (string \<times> signal_row list) list \<Rightarrow> (string \<times> cell) list \<Rightarrow> reporter \<Rightarrow>
   (exn + unit) \<times> reporter" where
  "log_portfolio S signals accs st =
     (if \<not> sheet st then (Inr (), report [Log INFO SkipPortfolioLogging] st)
      else try_except (log_portfolio_try S signals accs)
             (\<lambda>e st'. case e of Exception m \<Rightarrow>
                (Inr (), report [Log ERROR (PortfolioLoggingError m)] st'))
             st)"



section \<open>TradingSystem\<close>

text \<open>\<open>TradingStrategy.generate_signals\<close>: the loop over \<open>self.data\<close>, filling \<open>self.signals\<close>.\<close>

fun generate_signals ::
  "talib \<Rightarrow> (string \<times> bar list) list \<Rightarrow> (string \<times> signal_row list) list \<times> event list \<Rightarrow>
   (exn + unit) \<times> (string \<times> signal_row list) list \<times> event list" where
  "generate_signals T [] st = (Inr (), st)"
| "generate_signals T ((symbol, df) # rest) (signals, evs) =
     (case generate_signals_df T df of
        Inl e \<Rightarrow> (Inl e, signals, evs)
      | Inr out \<Rightarrow>
          generate_signals T rest
            (AList.update symbol out signals, evs @ [Log INFO (SignalsGenerated symbol)]))"

text \<open>
  The outside world of a run, and the state the \<open>TradingSystem\<close> object keeps between runs:
  its configuration, the number of calls the provider has answered, the dictionaries of the
  strategy and the trainer, the reporting objects and the events of its own runs.
\<close>

record 'm world =
  provider :: provider
  ta :: talib
  learn :: "'m sklearn"
  svc :: services

record 'm system =
  cfg_symbols :: "string list"
  cfg_period :: string
  provider_calls :: nat
  strategy_data :: "(string \<times> bar list) list"
  strategy_signals :: "(string \<times> signal_row list) list"
  ml_signals :: "(string \<times> signal_row list) list"
  ml_model :: "'m trainer"
  reporters :: reporter
  run_events :: "event list"

text \<open>
  \<open>TradingSystem.__init__\<close>; the four environment variables it reads are parameters. The
  fetcher is built with its default period.
\<close>

definition TradingSystem ::
  "services \<Rightarrow> string list \<Rightarrow> string \<Rightarrow> string option \<Rightarrow> string option \<Rightarrow> 'm system" where
  "TradingSystem S symbols credentials_file telegram_token telegram_chat_id =
     (case GoogleSheetsLogger S credentials_file of
        (sh, evs) \<Rightarrow>
          \<lparr>cfg_symbols = symbols, cfg_period = ''6mo'', provider_calls = 0,
           strategy_data = [], strategy_signals = [], ml_signals = [],
           ml_model = \<lparr>models = [], accuracies = [], trainer_events = []\<rparr>,
           reporters = \<lparr>sheet = sh, base_url = TelegramNotifier telegram_token,
                        chat_id = telegram_chat_id, api_calls = 0, report_events = evs\<rparr>,
           run_events = []\<rparr>)"

text \<open>
  \<open>run_system\<close> from its first statement to the call of \<open>log_portfolio\<close> (lines 262 to 274):
  it returns early without data (\<open>Aborted\<close>), raises what a step raises, or gets through the
  two spreadsheet calls (\<open>Reported\<close>). The statements after that build the alert text and
  send it (lines 275 to 282). They are left out: in lines 278 and 280 the quotes of the
  f-string are written with a backslash before them, which is not Python, so the file as
  committed does not compile. The definition says what lines 262 to 274 do in a file that
  compiles.
\<close>

datatype progress = Aborted | Reported

definition run_system_head :: "'m world \<Rightarrow> 'm system \<Rightarrow> (exn + progress) \<times> 'm system" where
  "run_system_head W sys =
     (case fetch_data (provider W) (cfg_period sys) (cfg_symbols sys) (provider_calls sys) of
        (fetched, f) \<Rightarrow>
          (let sys1 = sys\<lparr>provider_calls := calls f,
                          run_events := run_events sys @ [Log INFO Starting] @ fetch_events f\<rparr>
           in case fetched of
                Inl e \<Rightarrow> (Inl e, sys1)
              | Inr fetched_data \<Rightarrow>
                  if fetched_data = []
                  then (Inr Aborted, sys1\<lparr>run_events := run_events sys1 @ [Log ERROR Aborting]\<rparr>)
                  else
                    (case generate_signals (ta W) fetched_data
                            (strategy_signals sys1,
                             run_events sys1 @ [Log INFO (Fetched (map fst fetched_data))]) of
                       (Inl e, signals, evs) \<Rightarrow>
                         (Inl e, sys1\<lparr>strategy_data := fetched_data, strategy_signals := signals,
                                     run_events := evs\<rparr>)
                     | (Inr u, signals, evs) \<Rightarrow>
                         (let sys2 = sys1\<lparr>strategy_data := fetched_data, strategy_signals := signals,
                                         ml_signals := signals, run_events := evs\<rparr>
                          in case train_models (learn W) signals (ml_model sys2) of
                               (Inl e, t) \<Rightarrow> (Inl e, sys2\<lparr>ml_model := t\<rparr>)
                             | (Inr u, t) \<Rightarrow>
                                 (case log_trades (svc W) signals (reporters sys2) of
                                    (Inl e, r1) \<Rightarrow> (Inl e, sys2\<lparr>ml_model := t, reporters := r1\<rparr>)
                                  | (Inr u, r1) \<Rightarrow>
                                      (case log_portfolio (svc W) signals (accuracies t) r1 of
                                         (Inl e, r2) \<Rightarrow>
                                           (Inl e, sys2\<lparr>ml_model := t, reporters := r2\<rparr>)
                                       | (Inr u, r2) \<Rightarrow>
                                           (Inr Reported,
                                            sys2\<lparr>ml_model := t, reporters := r2\<rparr>)))))))"

section \<open>The indicator library, from its documentation\<close>

text \<open>
  Modelled from the spec: the indicator library (TA-Lib) is not part of the repository, and
  \<open>calculate_indicators\<close> only passes the close column through it. The spec says that an
  indicator is missing until enough preceding rows exist. The model below gives each function
  the lookback the library documents for it, on a close column without a missing value: the
  output has the length of the input, it is missing on the rows before the lookback and a
  number from there on. The lookback of the RSI over \<open>n\<close> periods is \<open>n\<close> (it needs
  \<open>n\<close> changes), that of the simple moving average over \<open>n\<close> periods is \<open>n - 1\<close>, and that
  of the MACD with periods 12, 26 and 9 is \<open>(26 - 1) + (9 - 1)\<close> for all three of its outputs
  (the slow average, then the signal average of the difference). The numbers themselves are
  not modelled: \<open>ta_values\<close> supplies them. A close column with a missing value is not
  modelled either: the library given as \<open>other\<close> answers for it.
\<close>

record ta_values =
  value_RSI :: "real list \<Rightarrow> nat \<Rightarrow> nat \<Rightarrow> real"
  value_SMA :: "real list \<Rightarrow> nat \<Rightarrow> nat \<Rightarrow> real"
  value_MACD :: "real list \<Rightarrow> nat \<Rightarrow> real \<times> real \<times> real"

fun present :: "cell list \<Rightarrow> real list option" where
  "present [] = Some []"
| "present (NaN # col) = None"
| "present (Val x # col) = map_option ((#) x) (present col)"

definition after_lookback :: "nat \<Rightarrow> nat \<Rightarrow> (nat \<Rightarrow> real) \<Rightarrow> cell list" where
  "after_lookback n lookback f = map (\<lambda>i. if i < lookback then NaN else Val (f i)) [0..<n]"

definition MACD_lookback :: nat where
  "MACD_lookback = (26 - 1) + (9 - 1)"

definition ta_lib :: "ta_values \<Rightarrow> talib \<Rightarrow> talib" where
  "ta_lib V other =
     \<lparr>talib_RSI = (\<lambda>close n. case present close of
          None \<Rightarrow> talib_RSI other close n
        | Some xs \<Rightarrow> Inr (after_lookback (length xs) n (value_RSI V xs n))),
      talib_SMA = (\<lambda>close n. case present close of
          None \<Rightarrow> talib_SMA other close n
        | Some xs \<Rightarrow> Inr (after_lookback (length xs) (n - 1) (value_SMA V xs n))),
      talib_MACD = (\<lambda>close. case present close of
          None \<Rightarrow> talib_MACD other close
        | Some xs \<Rightarrow>
            Inr (after_lookback (length xs) MACD_lookback (\<lambda>i. fst (value_MACD V xs i)),
                 after_lookback (length xs) MACD_lookback (\<lambda>i. fst (snd (value_MACD V xs i))),
                 after_lookback (length xs) MACD_lookback (\<lambda>i. snd (snd (value_MACD V xs i)))))\<rparr>"

section \<open>Reference definitions\<close>

text \<open>
  The signal rule in the spec's words: buy when the oscillator is below 30 and the fast
  average is above the slow one; sell when the oscillator is above 70 or the fast average is
  below the slow one; a comparison with a missing value does not hold. Signal is \<open>+1\<close> when
  the buy condition holds and the sell condition does not, \<open>-1\<close> when the sell condition
  holds, and \<open>0\<close> otherwise.
\<close>

definition spec_buy :: "cell \<Rightarrow> cell \<Rightarrow> cell \<Rightarrow> bool" where
  "spec_buy oscillator fast slow =
     (case (oscillator, fast, slow) of
        (Val r, Val f, Val s) \<Rightarrow> r < 30 \<and> s < f
      | _ \<Rightarrow> False)"

definition spec_sell :: "cell \<Rightarrow> cell \<Rightarrow> cell \<Rightarrow> bool" where
  "spec_sell oscillator fast slow =
     ((case oscillator of Val r \<Rightarrow> 70 < r | NaN \<Rightarrow> False) \<or>
      (case (fast, slow) of (Val f, Val s) \<Rightarrow> f < s | _ \<Rightarrow> False))"

definition spec_signal :: "cell \<Rightarrow> cell \<Rightarrow> cell \<Rightarrow> int" where
  "spec_signal oscillator fast slow =
     (if spec_buy oscillator fast slow \<and> \<not> spec_sell oscillator fast slow then 1
      else if spec_sell oscillator fast slow then - 1
      else 0)"

text \<open>The most recent non-zero entry of a column at or before row \<open>i\<close>, if there is one.\<close>

definition most_recent_nonzero :: "int list \<Rightarrow> nat \<Rightarrow> int option" where
  "most_recent_nonzero sig i =
     (let ys = filter (\<lambda>s. s \<noteq> 0) (take (Suc i) sig)
      in if ys = [] then None else Some (last ys))"

text \<open>A cell that holds a number between 0 and 1.\<close>

definition in_unit_interval :: "cell \<Rightarrow> bool" where
  "in_unit_interval c = (case c of NaN \<Rightarrow> False | Val r \<Rightarrow> 0 \<le> r \<and> r \<le> 1)"




text \<open>The events the fetcher can produce: pauses, log records and calls to the provider.\<close>

fun fetch_kind :: "event \<Rightarrow> bool" where
  "fetch_kind (Sleep n) = True"
| "fetch_kind (Log l m) = True"
| "fetch_kind (TickerInfo s) = True"
| "fetch_kind (TickerHistory s p) = True"
| "fetch_kind _ = False"

section \<open>Concrete inputs\<close>

text \<open>A bar with the given close, a volume of 1000 and no further columns.\<close>

definition mk_bar :: "real \<Rightarrow> bar" where
  "mk_bar c = \<lparr>Close = Val c, Volume = Val 1000, Other = []\<rparr>"

text \<open>
  Fifteen rising closes, and the columns the indicator library returns for them: the 14-period
  RSI is missing on the first fourteen rows and 100 on the fifteenth (every change is a gain);
  the 20- and 50-period averages and the MACD columns are missing on all fifteen rows.
\<close>

definition rising_bars :: "bar list" where
  "rising_bars = map mk_bar [1, 2, 3, 4, 5, 6, 7, 8, 9, 10, 11, 12, 13, 14, 15]"

definition rising_talib :: talib where
  "rising_talib =
     \<lparr>talib_RSI = (\<lambda>close n. Inr (replicate 14 NaN @ [Val 100])),
      talib_SMA = (\<lambda>close n. Inr (replicate 15 NaN)),
      talib_MACD = (\<lambda>close. Inr (replicate 15 NaN, replicate 15 NaN, replicate 15 NaN))\<rparr>"

text \<open>
  Fifty closes rising by one from 1 to 50, and the numbers the indicators take on them: every
  change is a gain, so the RSI is 100; the average of the last \<open>n\<close> closes at row \<open>i\<close>
  (counted from 0) is \<open>i + 1 - (n - 1) / 2\<close>; the two exponential averages trail the close by
  5.5 and 12.5, so the MACD and its signal line are 7 and the histogram is 0.
\<close>

definition ramp_bars :: "bar list" where
  "ramp_bars = map (\<lambda>i. mk_bar (real i + 1)) [0..<50]"

definition ramp_values :: ta_values where
  "ramp_values =
     \<lparr>value_RSI = (\<lambda>xs n i. 100),
      value_SMA = (\<lambda>xs n i. real i + 1 - (real n - 1) / 2),
      value_MACD = (\<lambda>xs i. (7, 7, 0))\<rparr>"

text \<open>
  A four-row frame with indicator columns chosen to give one warm-up row, one buy row, one hold
  row and one sell row, and the frame \<open>generate_signals\<close> makes of it.
\<close>

definition demo_bars :: "bar list" where
  "demo_bars = map mk_bar [10, 11, 12, 13]"

definition demo_talib :: talib where
  "demo_talib =
     \<lparr>talib_RSI = (\<lambda>close n. Inr [NaN, Val 25, Val 50, Val 75]),
      talib_SMA = (\<lambda>close n. if n = 20 then Inr [NaN, Val 2, Val 2, Val 2]
                               else Inr [NaN, Val 1, Val 1, Val 1]),
      talib_MACD = (\<lambda>close. Inr ([NaN, NaN, NaN, NaN], [NaN, NaN, NaN, NaN], [NaN, NaN, NaN, NaN]))\<rparr>"

definition demo_signals :: "signal_row list" where
  "demo_signals =
     [\<lparr>Close = Val 10, Volume = Val 1000, Other = [], RSI = NaN, MA_20 = NaN, MA_50 = NaN,
       MACD = NaN, MACD_signal = NaN, Signal = 0, Position = None\<rparr>,
      \<lparr>Close = Val 11, Volume = Val 1000, Other = [], RSI = Val 25, MA_20 = Val 2, MA_50 = Val 1,
       MACD = NaN, MACD_signal = NaN, Signal = 1, Position = Some 1\<rparr>,
      \<lparr>Close = Val 12, Volume = Val 1000, Other = [], RSI = Val 50, MA_20 = Val 2, MA_50 = Val 1,
       MACD = NaN, MACD_signal = NaN, Signal = 0, Position = Some 1\<rparr>,
      \<lparr>Close = Val 13, Volume = Val 1000, Other = [], RSI = Val 75, MA_20 = Val 2, MA_50 = Val 1,
       MACD = NaN, MACD_signal = NaN, Signal = - 1, Position = Some (- 1)\<rparr>]"

text \<open>
  A strategy that holds one symbol's signals from an earlier run, and the data of a new run
  with one symbol.
\<close>

definition old_signals :: "(string \<times> signal_row list) list" where
  "old_signals = [(''OLD.NS'', demo_signals)]"

definition demo_frames :: "(string \<times> bar list) list" where
  "demo_frames = [(''INFY.NS'', demo_bars)]"

text \<open>A signal row with the given close and no missing cell.\<close>

definition full_row :: "real \<Rightarrow> signal_row" where
  "full_row c = \<lparr>Close = Val c, Volume = Val 1000, Other = [], RSI = Val 50, MA_20 = Val 2,
     MA_50 = Val 1, MACD = Val 0, MACD_signal = Val 0, Signal = 0, Position = Some 1\<rparr>"

text \<open>Two complete rows with a rising close, and two with a falling close.\<close>

definition rising_pair :: "signal_row list" where
  "rising_pair = [full_row 10, full_row 11]"

definition falling_pair :: "signal_row list" where
  "falling_pair = [full_row 11, full_row 10]"

text \<open>
  A stand-in for the learning library: the splitter holds out the last row and raises when
  that would leave no training row; the tree predicts 0 on every row.
\<close>

definition demo_sklearn :: "unit sklearn" where
  "demo_sklearn =
     \<lparr>train_test_split = (\<lambda>xs. if length xs < 2
          then Inl (Exception ''the resulting train set will be empty'')
          else Inr (butlast xs, [last xs])),
      tree_fit = (\<lambda>X y. Inr ()),
      tree_predict = (\<lambda>m X. Inr (replicate (length X) 0))\<rparr>"

text \<open>The trainer as its constructor leaves it.\<close>

definition empty_trainer :: "unit trainer" where
  "empty_trainer = \<lparr>models = [], accuracies = [], trainer_events = []\<rparr>"

text \<open>
  Two symbols: one whose two complete rows both carry the label 0, and one whose rows all have
  a missing cell, so that nothing is left after \<open>dropna\<close>; and the trainer after training
  on them.
\<close>

definition two_symbols :: "(string \<times> signal_row list) list" where
  "two_symbols = [(''INFY.NS'', falling_pair), (''RELIANCE.NS'', demo_signals)]"

definition two_symbols_trained :: "unit trainer" where
  "two_symbols_trained =
     \<lparr>models = [(''INFY.NS'', ())], accuracies = [(''INFY.NS'', Val 1)],
      trainer_events = [TreeFit ''INFY.NS'', Log INFO (ModelTrained ''INFY.NS'' (Val 1)),
                        Log WARNING (NotEnoughData ''RELIANCE.NS'')]\<rparr>"

text \<open>
  Two symbols again: the first has a single complete row, which the splitter rejects; the
  second could be trained.
\<close>

definition one_row_first :: "(string \<times> signal_row list) list" where
  "one_row_first = [(''NEW.NS'', [full_row 10]), (''INFY.NS'', falling_pair)]"

text \<open>
  Two providers. The first answers its second call (the first \<open>history\<close>) with a rate-limit
  error and has no data at all for one symbol. The second answers its first call (an
  \<open>info\<close>) with a rate-limit error, its second (an \<open>info\<close>) with another error and its
  third (a \<open>history\<close>) with a rate-limit error.
\<close>

definition limited_history :: provider where
  "limited_history =
     \<lparr>ticker_info = (\<lambda>n symbol. Inr True),
      ticker_history = (\<lambda>n symbol period.
         if symbol = ''BAD.NS'' then Inr []
         else if n = 1 then Inl (Exception ''429 Too Many Requests'')
         else Inr demo_bars)\<rparr>"

definition limited_info :: provider where
  "limited_info =
     \<lparr>ticker_info = (\<lambda>n symbol.
         if n = 0 then Inl (Exception ''Too Many Requests'')
         else if n = 1 then Inl (Exception ''timed out'')
         else Inr True),
      ticker_history = (\<lambda>n symbol period.
         if n = 2 then Inl (Exception ''HTTP 429'') else Inr demo_bars)\<rparr>"

text \<open>A fetcher at the start of \<open>fetch_data\<close>, the provider having answered \<open>n\<close> calls.\<close>

definition fresh :: "nat \<Rightarrow> fetcher" where
  "fresh n = \<lparr>data = [], calls = n, fetch_events = []\<rparr>"

text \<open>
  Services whose spreadsheet calls all raise; the default credentials file is absent and
  \<open>bad.json\<close> exists but is rejected. In \<open>all_down\<close> the messaging endpoint raises as well.
\<close>

definition sheets_down :: services where
  "sheets_down =
     \<lparr>path_exists = (\<lambda>p. p = ''bad.json''),
      open_spreadsheet = (\<lambda>p. Inl (Exception ''invalid credentials'')),
      now = (\<lambda>n. ''2024-01-01 09:30:00''),
      worksheet = (\<lambda>n title. Inl (Exception ''unavailable'')),
      get_all_values = (\<lambda>n title. Inl (Exception ''unavailable'')),
      append_rows = (\<lambda>n title rows. Inl (Exception ''unavailable'')),
      append_row = (\<lambda>n title row. Inl (Exception ''unavailable'')),
      requests_post = (\<lambda>n url chat message. Inr (200, ''ok'')),
      parse_float = (\<lambda>s. Inl (Exception ''could not convert string to float'')),
      format_float = (\<lambda>spec c. ''0.00'')\<rparr>"






text \<open>
  A world with the provider that limits the first history call and has nothing for
  \<open>BAD.NS\<close>, and the system as its constructor builds it for the given symbols when the
  credentials file is absent and the messaging token and chat identifier are set.
\<close>

definition demo_world :: "unit world" where
  "demo_world = \<lparr>provider = limited_history, ta = demo_talib, learn = demo_sklearn, svc = sheets_down\<rparr>"

definition demo_system :: "string list \<Rightarrow> unit system" where
  "demo_system symbols =
     TradingSystem sheets_down symbols ''service-account.json'' (Some ''123'') (Some ''42'')"





section \<open>The signal rule\<close>

lemma set_update_cases:
  "(s, h) \<in> set (AList.update k v al) \<Longrightarrow> (s, h) = (k, v) \<or> (s, h) \<in> set al"
  by (induction al) (auto split: if_splits)

lemma length_loc_assign: "length (loc_assign sel v col) = min (length sel) (length col)"
  by (simp add: loc_assign_def)

lemma nth_loc_assign:
  "i < length sel \<Longrightarrow> i < length col \<Longrightarrow>
   loc_assign sel v col ! i = (if sel ! i then v else col ! i)"
  by (simp add: loc_assign_def)

lemma sell_assignment_wins:
  "i < length buy \<Longrightarrow> i < length sell \<Longrightarrow> i < length col \<Longrightarrow> sell ! i \<Longrightarrow>
   loc_assign sell (- 1) (loc_assign buy 1 col) ! i = (- 1 :: int)"
  by (simp add: nth_loc_assign length_loc_assign)

lemma length_signal_column: "length (signal_column df) = length df"
  by (simp add: signal_column_def length_loc_assign buy_condition_def sell_condition_def)

lemma nth_signal_column:
  "i < length df \<Longrightarrow>
   signal_column df ! i = (if sell_row (df ! i) then - 1 else if buy_row (df ! i) then 1 else 0)"
  by (simp add: signal_column_def Let_def nth_loc_assign length_loc_assign
      buy_condition_def sell_condition_def)

lemma buy_sell_exclusive: "\<not> (buy_row r \<and> sell_row r)"
  by (cases "RSI r"; cases "MA_20 r"; cases "MA_50 r") (auto simp: buy_row_def sell_row_def)

lemma length_ffill_from: "length (ffill_from c xs) = length xs"
  by (induction c xs rule: ffill_from.induct) simp_all

lemma length_position_column: "length (position_column s) = length s"
  by (simp add: position_column_def ffill_def length_ffill_from replace_zero_def)

lemma ffill_from_nth:
  "i < length xs \<Longrightarrow>
   ffill_from c xs ! i =
     (let ys = filter (\<lambda>x. x \<noteq> None) (take (Suc i) xs) in if ys = [] then c else last ys)"
proof (induction c xs arbitrary: i rule: ffill_from.induct)
  case (1 c)
  then show ?case by simp
next
  case (2 c xs)
  then show ?case by (cases i) (simp_all add: Let_def)
next
  case (3 c v xs)
  then show ?case by (cases i) (simp_all add: Let_def)
qed

lemma filter_replace_zero:
  "filter (\<lambda>x. x \<noteq> None) (map (\<lambda>s. if s = 0 then None else Some s) xs) =
   map Some (filter (\<lambda>s. s \<noteq> (0::int)) xs)"
  by (induction xs) simp_all

lemma nth_position_column:
  assumes "i < length s"
  shows "position_column s ! i = most_recent_nonzero s i"
proof -
  let ?r = "map (\<lambda>s. if s = 0 then None else Some s) s"
  let ?nz = "filter (\<lambda>s. s \<noteq> 0) (take (Suc i) s)"
  have f: "filter (\<lambda>x. x \<noteq> None) (take (Suc i) ?r) = map Some ?nz"
    unfolding take_map by (rule filter_replace_zero)
  have "position_column s ! i = (if map Some ?nz = [] then None else last (map Some ?nz))"
    using assms unfolding position_column_def ffill_def replace_zero_def
    by (subst ffill_from_nth) (simp_all only: f Let_def length_map)
  also have "\<dots> = most_recent_nonzero s i"
    by (simp add: most_recent_nonzero_def Let_def last_map)
  finally show ?thesis .
qed

text \<open>What \<open>most_recent_nonzero\<close> says, row by row.\<close>

lemma last_filter_position:
  "filter P xs \<noteq> [] \<Longrightarrow>
   \<exists>j<length xs. xs ! j = last (filter P xs) \<and> P (xs ! j) \<and>
     (\<forall>k. j < k \<and> k < length xs \<longrightarrow> \<not> P (xs ! k))"
proof (induction xs rule: rev_induct)
  case Nil
  then show ?case by simp
next
  case (snoc x xs)
  show ?case
  proof (cases "P x")
    case True
    then show ?thesis by (intro exI[of _ "length xs"]) auto
  next
    case False
    then have ne: "filter P xs \<noteq> []" using snoc.prems by simp
    from snoc.IH[OF ne] obtain j where j: "j < length xs" "xs ! j = last (filter P xs)"
      "P (xs ! j)" "\<forall>k. j < k \<and> k < length xs \<longrightarrow> \<not> P (xs ! k)" by blast
    have "\<forall>k. j < k \<and> k < length (xs @ [x]) \<longrightarrow> \<not> P ((xs @ [x]) ! k)"
      using j(4) False by (auto simp: nth_append less_Suc_eq)
    then show ?thesis using j False by (intro exI[of _ j]) (simp add: nth_append)
  qed
qed

lemma most_recent_nonzero_None_iff:
  assumes "i < length s"
  shows "most_recent_nonzero s i = None \<longleftrightarrow> (\<forall>j\<le>i. s ! j = 0)"
proof -
  have "most_recent_nonzero s i = None \<longleftrightarrow> filter (\<lambda>x. x \<noteq> 0) (take (Suc i) s) = []"
    by (simp add: most_recent_nonzero_def Let_def)
  also have "\<dots> \<longleftrightarrow> (\<forall>x \<in> set (take (Suc i) s). x = 0)"
    by (auto simp: filter_empty_conv)
  also have "\<dots> \<longleftrightarrow> (\<forall>j\<le>i. s ! j = 0)"
  proof
    assume a: "\<forall>x \<in> set (take (Suc i) s). x = 0"
    show "\<forall>j\<le>i. s ! j = 0"
    proof (intro allI impI)
      fix j assume "j \<le> i"
      then have "j < length (take (Suc i) s)" using assms by simp
      then have "take (Suc i) s ! j \<in> set (take (Suc i) s)" by (rule nth_mem)
      then have "take (Suc i) s ! j = 0" using a by blast
      then show "s ! j = 0" using \<open>j \<le> i\<close> by simp
    qed
  next
    assume "\<forall>j\<le>i. s ! j = 0"
    then show "\<forall>x \<in> set (take (Suc i) s). x = 0"
      using assms by (auto simp: in_set_conv_nth)
  qed
  finally show ?thesis .
qed

lemma most_recent_nonzero_Some_iff:
  assumes "i < length s"
  shows "most_recent_nonzero s i = Some v \<longleftrightarrow>
    (\<exists>j\<le>i. s ! j = v \<and> v \<noteq> 0 \<and> (\<forall>k. j < k \<and> k \<le> i \<longrightarrow> s ! k = 0))"
proof
  let ?t = "take (Suc i) s"
  have len: "length ?t = Suc i" using assms by simp
  assume "most_recent_nonzero s i = Some v"
  then have ne: "filter (\<lambda>x. x \<noteq> 0) ?t \<noteq> []" and v: "last (filter (\<lambda>x. x \<noteq> 0) ?t) = v"
    by (auto simp: most_recent_nonzero_def Let_def split: if_splits)
  from last_filter_position[OF ne] obtain j where j: "j < length ?t" "?t ! j = v" "?t ! j \<noteq> 0"
    "\<forall>k. j < k \<and> k < length ?t \<longrightarrow> \<not> (?t ! k \<noteq> 0)" using v by auto
  have "j \<le> i" using j(1) len by simp
  moreover have "s ! j = v" using j(1,2) by simp
  moreover have "v \<noteq> 0" using j(2,3) by simp
  moreover have "\<forall>k. j < k \<and> k \<le> i \<longrightarrow> s ! k = 0"
  proof (intro allI impI)
    fix k assume k: "j < k \<and> k \<le> i"
    then have "k < length ?t" using len by simp
    then have "?t ! k = 0" using j(4) k by blast
    then show "s ! k = 0" using k by simp
  qed
  ultimately show "\<exists>j\<le>i. s ! j = v \<and> v \<noteq> 0 \<and> (\<forall>k. j < k \<and> k \<le> i \<longrightarrow> s ! k = 0)"
    by blast
next
  let ?t = "take (Suc i) s"
  have len: "length ?t = Suc i" using assms by simp
  assume "\<exists>j\<le>i. s ! j = v \<and> v \<noteq> 0 \<and> (\<forall>k. j < k \<and> k \<le> i \<longrightarrow> s ! k = 0)"
  then obtain j where j: "j \<le> i" "s ! j = v" "v \<noteq> 0" "\<forall>k. j < k \<and> k \<le> i \<longrightarrow> s ! k = 0"
    by blast
  have "v \<in> set ?t" using j(1,2) len by (auto simp: in_set_conv_nth intro!: exI[of _ j])
  then have ne: "filter (\<lambda>x. x \<noteq> 0) ?t \<noteq> []" using j(3) by (auto simp: filter_empty_conv)
  from last_filter_position[OF ne] obtain m where m: "m < length ?t"
    "?t ! m = last (filter (\<lambda>x. x \<noteq> 0) ?t)" "?t ! m \<noteq> 0"
    "\<forall>k. m < k \<and> k < length ?t \<longrightarrow> \<not> (?t ! k \<noteq> 0)" by auto
  have mi: "m \<le> i" using m(1) len by simp
  have sm: "s ! m \<noteq> 0" using m(1,3) by simp
  have "\<not> j < m" using j(4) mi sm by blast
  moreover have "\<not> m < j"
  proof
    assume "m < j"
    then have "?t ! j = 0" using m(4) j(1) len by simp
    then show False using j by simp
  qed
  ultimately have "m = j" by simp
  then have "last (filter (\<lambda>x. x \<noteq> 0) ?t) = v" using m(2) j(1,2) by simp
  then show "most_recent_nonzero s i = Some v"
    using ne by (simp add: most_recent_nonzero_def Let_def)
qed

lemma length_with_signals:
  "length s = length df \<Longrightarrow> length p = length df \<Longrightarrow> length (with_signals df s p) = length df"
  by (simp add: with_signals_def)

lemma nth_with_signals:
  "length s = length df \<Longrightarrow> length p = length df \<Longrightarrow> i < length df \<Longrightarrow>
   with_signals df s p ! i =
     \<lparr>Close = Close (df ! i), Volume = Volume (df ! i), Other = Other (df ! i),
      RSI = RSI (df ! i), MA_20 = MA_20 (df ! i), MA_50 = MA_50 (df ! i),
      MACD = MACD (df ! i), MACD_signal = MACD_signal (df ! i),
      Signal = s ! i, Position = p ! i\<rparr>"
  by (simp add: with_signals_def)

lemma generate_signals_df_Inr:
  assumes "generate_signals_df T df0 = Inr out"
  obtains df where "calculate_indicators T df0 = Inr df"
    and "out = with_signals df (signal_column df) (position_column (signal_column df))"
  using assms by (auto simp: generate_signals_df_def Let_def split: sum.splits)

lemma map_Signal_with_signals:
  "length s = length df \<Longrightarrow> length p = length df \<Longrightarrow> map Signal (with_signals df s p) = s"
  by (rule nth_equalityI) (simp_all add: length_with_signals nth_with_signals)

lemma demo_run: "generate_signals_df demo_talib demo_bars = Inr demo_signals"
  by code_simp

lemma signals_rows:
  assumes "generate_signals_df T df0 = Inr out"
  shows "\<exists>df. length out = length df \<and> map Signal out = signal_column df \<and>
     map Position out = position_column (signal_column df) \<and>
     (\<forall>i<length df. RSI (out ! i) = RSI (df ! i) \<and> MA_20 (out ! i) = MA_20 (df ! i) \<and>
        MA_50 (out ! i) = MA_50 (df ! i))"
proof -
  from assms obtain df where
    out: "out = with_signals df (signal_column df) (position_column (signal_column df))"
    by (rule generate_signals_df_Inr)
  have l1: "length (signal_column df) = length df" by (rule length_signal_column)
  have l2: "length (position_column (signal_column df)) = length df"
    by (simp add: length_position_column l1)
  have a: "length out = length df" unfolding out by (rule length_with_signals[OF l1 l2])
  have b: "map Signal out = signal_column df"
    unfolding out by (rule map_Signal_with_signals[OF l1 l2])
  have c: "map Position out = position_column (signal_column df)"
    unfolding out by (rule nth_equalityI) (simp_all add: length_with_signals l1 l2 nth_with_signals)
  have d: "\<forall>i<length df. RSI (out ! i) = RSI (df ! i) \<and> MA_20 (out ! i) = MA_20 (df ! i) \<and>
        MA_50 (out ! i) = MA_50 (df ! i)"
    unfolding out by (simp add: nth_with_signals l1 l2)
  show ?thesis using a b c d by blast
qed

lemma signal_of_row:
  assumes "generate_signals_df T df0 = Inr out" and "i < length out"
  shows "Signal (out ! i) = (if sell_row (out ! i) then - 1 else if buy_row (out ! i) then 1 else 0)"
proof -
  from assms(1) obtain df where len: "length out = length df"
    and sig: "map Signal out = signal_column df"
    and pos: "map Position out = position_column (signal_column df)"
    and ind: "\<forall>i<length df. RSI (out ! i) = RSI (df ! i) \<and> MA_20 (out ! i) = MA_20 (df ! i) \<and>
        MA_50 (out ! i) = MA_50 (df ! i)"
    using signals_rows by blast
  have i: "i < length df" using assms(2) len by simp
  have "Signal (out ! i) = map Signal out ! i" using assms(2) by simp
  also have "\<dots> = (if sell_row (df ! i) then - 1 else if buy_row (df ! i) then 1 else 0)"
    unfolding sig by (rule nth_signal_column[OF i])
  also have "\<dots> = (if sell_row (out ! i) then - 1 else if buy_row (out ! i) then 1 else 0)"
    using ind i by (simp add: sell_row_def buy_row_def)
  finally show ?thesis .
qed

lemma signal_masks:
  assumes "generate_signals_df T df0 = Inr out"
  shows "map Signal out =
     loc_assign (map sell_row out) (- 1) (loc_assign (map buy_row out) 1 (replicate (length out) 0))"
proof (rule nth_equalityI)
  show "length (map Signal out) =
    length (loc_assign (map sell_row out) (- 1) (loc_assign (map buy_row out) 1 (replicate (length out) 0)))"
    by (simp add: length_loc_assign)
next
  fix i assume "i < length (map Signal out)"
  then have i: "i < length out" by simp
  show "map Signal out ! i =
    loc_assign (map sell_row out) (- 1) (loc_assign (map buy_row out) 1 (replicate (length out) 0)) ! i"
    using i signal_of_row[OF assms i] by (simp add: nth_loc_assign length_loc_assign)
qed

lemma frame_rule:
  assumes "generate_signals_df T df0 = Inr out" and "i < length out"
  shows "(Signal (out ! i) = 1 \<longleftrightarrow> buy_row (out ! i) \<and> \<not> sell_row (out ! i)) \<and>
         (Signal (out ! i) = - 1 \<longleftrightarrow> sell_row (out ! i)) \<and>
         (Signal (out ! i) = 0 \<longleftrightarrow> \<not> buy_row (out ! i) \<and> \<not> sell_row (out ! i)) \<and>
         map Signal out =
           loc_assign (map sell_row out) (- 1)
             (loc_assign (map buy_row out) 1 (replicate (length out) 0))"
  using signal_of_row[OF assms] signal_masks[OF assms(1)] by simp

lemma frame_position:
  assumes "generate_signals_df T df0 = Inr out" and "i < length out"
  shows "Signal (out ! i) \<in> {- 1, 0, 1} \<and>
         Position (out ! i) = most_recent_nonzero (map Signal out) i"
proof -
  from assms(1) obtain df where len: "length out = length df"
    and sig: "map Signal out = signal_column df"
    and pos: "map Position out = position_column (signal_column df)"
    and ind: "\<forall>i<length df. RSI (out ! i) = RSI (df ! i) \<and> MA_20 (out ! i) = MA_20 (df ! i) \<and>
        MA_50 (out ! i) = MA_50 (df ! i)"
    using signals_rows by blast
  have "Position (out ! i) = map Position out ! i" using assms(2) by simp
  also have "\<dots> = most_recent_nonzero (signal_column df) i"
    unfolding pos using assms(2) len by (simp add: nth_position_column length_signal_column)
  finally have "Position (out ! i) = most_recent_nonzero (map Signal out) i"
    by (simp add: sig)
  then show ?thesis using signal_of_row[OF assms] by simp
qed

lemma spec_sell_row: "spec_sell (RSI r) (MA_20 r) (MA_50 r) = sell_row r"
  by (cases "RSI r"; cases "MA_20 r"; cases "MA_50 r") (auto simp: spec_sell_def sell_row_def)

lemma spec_buy_row: "spec_buy (RSI r) (MA_20 r) (MA_50 r) = buy_row r"
  by (cases "RSI r"; cases "MA_20 r"; cases "MA_50 r") (auto simp: spec_buy_def buy_row_def)

lemma rows_follow_rule:
  assumes "generate_signals_df T df0 = Inr out" and "i < length out"
  shows "Signal (out ! i) = spec_signal (RSI (out ! i)) (MA_20 (out ! i)) (MA_50 (out ! i))"
  using signal_of_row[OF assms]
  by (simp add: spec_signal_def spec_sell_row spec_buy_row)

lemma length_with_indicators:
  "length (with_indicators df rsi ma20 ma50 macd macd_signal) = length df"
  by (simp add: with_indicators_def)

lemma closes_with_indicators:
  "map Close (with_indicators df rsi ma20 ma50 macd macd_signal) = map Close df"
  by (rule nth_equalityI) (simp_all add: with_indicators_def)

lemma calculate_indicators_closes:
  assumes "calculate_indicators T df0 = Inr df"
  shows "map Close df = map Close df0"
  using assms unfolding calculate_indicators_def Let_def
  by (auto simp: closes_with_indicators split: sum.splits prod.splits)

lemma generate_signals_df_closes:
  assumes "generate_signals_df T df0 = Inr out"
  shows "map Close out = map Close df0"
proof -
  from assms obtain df where c: "calculate_indicators T df0 = Inr df"
    and out: "out = with_signals df (signal_column df) (position_column (signal_column df))"
    by (rule generate_signals_df_Inr)
  have l1: "length (signal_column df) = length df" by (rule length_signal_column)
  have l2: "length (position_column (signal_column df)) = length df"
    by (simp add: length_position_column l1)
  have "map Close out = map Close df"
    unfolding out by (rule nth_equalityI) (simp_all add: length_with_signals l1 l2 nth_with_signals)
  then show ?thesis using calculate_indicators_closes[OF c] by simp
qed

lemma generate_signals_Cons:
  "generate_signals T ((symbol, df) # rest) (signals0, evs0) =
     (case generate_signals_df T df of
        Inl e \<Rightarrow> (Inl e, signals0, evs0)
      | Inr out \<Rightarrow>
          generate_signals T rest
            (AList.update symbol out signals0, evs0 @ [Log INFO (SignalsGenerated symbol)]))"
  by simp

lemma generate_signals_stored:
  assumes "generate_signals T frames (signals0, evs0) = (r, signals, evs)"
    and "(s, out) \<in> set signals"
  shows "(s, out) \<in> set signals0 \<or>
         (\<exists>df0. (s, df0) \<in> set frames \<and> generate_signals_df T df0 = Inr out)"
  using assms
proof (induction frames arbitrary: signals0 evs0)
  case Nil
  then show ?case by simp
next
  case (Cons a rest)
  obtain symbol df where a: "a = (symbol, df)" by (cases a)
  show ?case
  proof (cases "generate_signals_df T df")
    case (Inl e)
    then have "signals = signals0" using Cons.prems(1) a by simp
    then show ?thesis using Cons.prems(2) by simp
  next
    case (Inr out0)
    then have rest: "generate_signals T rest
        (AList.update symbol out0 signals0, evs0 @ [Log INFO (SignalsGenerated symbol)])
        = (r, signals, evs)"
      using Cons.prems(1) a by simp
    from Cons.IH[OF rest Cons.prems(2)] consider
      (upd) "(s, out) \<in> set (AList.update symbol out0 signals0)"
    | (new) df0 where "(s, df0) \<in> set rest" "generate_signals_df T df0 = Inr out" by blast
    then show ?thesis
    proof cases
      case upd
      from set_update_cases[OF upd] show ?thesis using Inr a by auto
    next
      case new
      then show ?thesis by auto
    qed
  qed
qed

lemma generate_signals_other:
  assumes "generate_signals T frames (signals0, evs0) = (r, signals, evs)"
    and "s \<notin> fst ` set frames"
  shows "map_of signals s = map_of signals0 s"
  using assms
proof (induction frames arbitrary: signals0 evs0)
  case Nil
  then show ?case by simp
next
  case (Cons a rest)
  obtain symbol df where a: "a = (symbol, df)" by (cases a)
  have ne: "s \<noteq> symbol" and nr: "s \<notin> fst ` set rest" using Cons.prems(2) a by auto
  show ?case
  proof (cases "generate_signals_df T df")
    case (Inl e)
    then have "signals = signals0" using Cons.prems(1) a by simp
    then show ?thesis by simp
  next
    case (Inr out0)
    then have rest: "generate_signals T rest
        (AList.update symbol out0 signals0, evs0 @ [Log INFO (SignalsGenerated symbol)])
        = (r, signals, evs)"
      using Cons.prems(1) a by simp
    from Cons.IH[OF rest nr] show ?thesis using ne by (simp add: update_conv')
  qed
qed

lemma generate_signals_returned:
  assumes "generate_signals T frames (signals0, evs0) = (Inr (), signals, evs)"
    and "s \<in> fst ` set frames"
  shows "\<exists>out df0. map_of signals s = Some out \<and> (s, df0) \<in> set frames \<and>
           generate_signals_df T df0 = Inr out"
  using assms
proof (induction frames arbitrary: signals0 evs0)
  case Nil
  then show ?case by simp
next
  case (Cons a rest)
  obtain symbol df where a: "a = (symbol, df)" by (cases a)
  show ?case
  proof (cases "generate_signals_df T df")
    case (Inl e)
    then show ?thesis using Cons.prems(1) a by simp
  next
    case (Inr out0)
    then have rest: "generate_signals T rest
        (AList.update symbol out0 signals0, evs0 @ [Log INFO (SignalsGenerated symbol)])
        = (Inr (), signals, evs)"
      using Cons.prems(1) a by simp
    show ?thesis
    proof (cases "s \<in> fst ` set rest")
      case True
      from Cons.IH[OF rest True] show ?thesis by auto
    next
      case False
      then have s: "s = symbol" using Cons.prems(2) a by auto
      have "map_of signals s = map_of (AList.update symbol out0 signals0) s"
        by (rule generate_signals_other[OF rest False])
      then have "map_of signals s = Some out0" using s by (simp add: update_conv')
      then show ?thesis using Inr a s by auto
    qed
  qed
qed

lemma demo_frames_run:
  "generate_signals demo_talib demo_frames (old_signals, []) =
     (Inr (), [(''OLD.NS'', demo_signals), (''INFY.NS'', demo_signals)],
      [Log INFO (SignalsGenerated ''INFY.NS'')])"
  by (simp add: demo_frames_def old_signals_def demo_run)

text \<open>
  C1. Every frame that \<open>generate_signals\<close> returns follows the signal rule on every row:
  Signal is \<open>+1\<close> exactly when the buy condition (oscillator below 30 and 20-period average
  above the 50-period one) holds and the sell condition does not, \<open>-1\<close> whenever the sell
  condition (oscillator above 70 or 20-period average below the 50-period one) holds, and
  \<open>0\<close> otherwise, the frames kept from earlier runs following it already. When
  \<open>generate_signals\<close> returns, every symbol of the data has such a frame, with the closes of
  its series. The sell assignment comes after the buy assignment and so wins on a row that
  both masks select (\<open>sell_assignment_wins\<close>); the two masks of the source select no row in
  common (\<open>buy_sell_exclusive\<close>).
\<close>

theorem generate_signals_rule:
  assumes "generate_signals T frames (signals0, evs0) = (r, signals, evs)"
    and "\<forall>out \<in> snd ` set signals0. \<forall>i<length out.
           Signal (out ! i) = spec_signal (RSI (out ! i)) (MA_20 (out ! i)) (MA_50 (out ! i))"
  shows "(\<forall>out \<in> snd ` set signals. \<forall>i<length out.
            Signal (out ! i) = spec_signal (RSI (out ! i)) (MA_20 (out ! i)) (MA_50 (out ! i))) \<and>
         (r = Inr () \<longrightarrow>
            (\<forall>s \<in> fst ` set frames. \<exists>out df0. map_of signals s = Some out \<and>
               (s, df0) \<in> set frames \<and> map Close out = map Close df0))"
proof (intro conjI ballI allI impI)
  fix out i
  assume o: "out \<in> snd ` set signals" and i: "i < length out"
  from o obtain s where "(s, out) \<in> set signals" by auto
  from generate_signals_stored[OF assms(1) this] consider
    (old) "(s, out) \<in> set signals0"
  | (new) df0 where "generate_signals_df T df0 = Inr out" by blast
  then show "Signal (out ! i) = spec_signal (RSI (out ! i)) (MA_20 (out ! i)) (MA_50 (out ! i))"
  proof cases
    case old
    then have "out \<in> snd ` set signals0" by force
    then show ?thesis using assms(2) i by blast
  next
    case new
    then show ?thesis using i by (rule rows_follow_rule)
  qed
next
  fix s
  assume r: "r = Inr ()" and s: "s \<in> fst ` set frames"
  from generate_signals_returned[OF assms(1)[unfolded r] s] obtain out df0 where
    "map_of signals s = Some out" "(s, df0) \<in> set frames" "generate_signals_df T df0 = Inr out"
    by blast
  then show "\<exists>out df0. map_of signals s = Some out \<and> (s, df0) \<in> set frames \<and>
      map Close out = map Close df0"
    using generate_signals_df_closes by blast
qed

theorem generate_signals_rule_witness:
  "generate_signals demo_talib demo_frames (old_signals, []) =
     (Inr (), [(''OLD.NS'', demo_signals), (''INFY.NS'', demo_signals)],
      [Log INFO (SignalsGenerated ''INFY.NS'')]) \<and>
   demo_signals \<in> snd ` set old_signals \<and> length demo_signals = 4 \<and>
   map Signal demo_signals = [0, 1, 0, - 1] \<and>
   map (\<lambda>r. spec_signal (RSI r) (MA_20 r) (MA_50 r)) demo_signals = [0, 1, 0, - 1] \<and>
   ''INFY.NS'' \<in> fst ` set demo_frames \<and>
   map_of [(''OLD.NS'', demo_signals), (''INFY.NS'', demo_signals)] ''INFY.NS'' = Some demo_signals \<and>
   map Close demo_signals = map Close demo_bars"
proof -
  have old: "\<forall>out \<in> snd ` set old_signals. \<forall>i<length out.
           Signal (out ! i) = spec_signal (RSI (out ! i)) (MA_20 (out ! i)) (MA_50 (out ! i))"
    using rows_follow_rule[OF demo_run] by (simp add: old_signals_def)
  have sp: "map (\<lambda>r. spec_signal (RSI r) (MA_20 r) (MA_50 r)) demo_signals = [0, 1, 0, - 1]"
    by (simp add: demo_signals_def spec_signal_def spec_buy_def spec_sell_def)
  show ?thesis
    using generate_signals_rule[OF demo_frames_run old] demo_frames_run sp
    by (simp add: demo_signals_def demo_frames_def old_signals_def demo_bars_def mk_bar_def)
qed

text \<open>
  C5. In every frame that \<open>generate_signals\<close> returns, on every row, Signal is one of
  \<open>-1\<close>, \<open>0\<close>, \<open>+1\<close>, and Position is the most recent non-zero Signal at or before
  that row, or missing when there is none yet (\<open>most_recent_nonzero_Some_iff\<close>,
  \<open>most_recent_nonzero_None_iff\<close>), the frames kept from earlier runs being so already. When
  \<open>generate_signals\<close> returns, every symbol of the data has such a frame, with the closes of
  its series.
\<close>

theorem signal_ternary_position_ffill:
  assumes "generate_signals T frames (signals0, evs0) = (r, signals, evs)"
    and "\<forall>out \<in> snd ` set signals0. \<forall>i<length out.
           Signal (out ! i) \<in> {- 1, 0, 1} \<and>
           Position (out ! i) = most_recent_nonzero (map Signal out) i"
  shows "(\<forall>out \<in> snd ` set signals. \<forall>i<length out.
            Signal (out ! i) \<in> {- 1, 0, 1} \<and>
            Position (out ! i) = most_recent_nonzero (map Signal out) i) \<and>
         (r = Inr () \<longrightarrow>
            (\<forall>s \<in> fst ` set frames. \<exists>out df0. map_of signals s = Some out \<and>
               (s, df0) \<in> set frames \<and> map Close out = map Close df0))"
proof (intro conjI ballI allI impI)
  fix out i
  assume o: "out \<in> snd ` set signals" and i: "i < length out"
  from o obtain s where "(s, out) \<in> set signals" by auto
  from generate_signals_stored[OF assms(1) this] consider
    (old) "(s, out) \<in> set signals0"
  | (new) df0 where "generate_signals_df T df0 = Inr out" by blast
  then have "Signal (out ! i) \<in> {- 1, 0, 1} \<and>
    Position (out ! i) = most_recent_nonzero (map Signal out) i"
  proof cases
    case old
    then have "out \<in> snd ` set signals0" by force
    then show ?thesis using assms(2) i by blast
  next
    case new
    then show ?thesis using i by (rule frame_position)
  qed
  then show "Signal (out ! i) \<in> {- 1, 0, 1}"
    and "Position (out ! i) = most_recent_nonzero (map Signal out) i" by simp_all
next
  fix s
  assume r: "r = Inr ()" and s: "s \<in> fst ` set frames"
  from generate_signals_returned[OF assms(1)[unfolded r] s] obtain out df0 where
    "map_of signals s = Some out" "(s, df0) \<in> set frames" "generate_signals_df T df0 = Inr out"
    by blast
  then show "\<exists>out df0. map_of signals s = Some out \<and> (s, df0) \<in> set frames \<and>
      map Close out = map Close df0"
    using generate_signals_df_closes by blast
qed

theorem signal_ternary_position_ffill_witness:
  "generate_signals demo_talib demo_frames (old_signals, []) =
     (Inr (), [(''OLD.NS'', demo_signals), (''INFY.NS'', demo_signals)],
      [Log INFO (SignalsGenerated ''INFY.NS'')]) \<and>
   demo_signals \<in> snd ` set old_signals \<and> length demo_signals = 4 \<and>
   map Signal demo_signals = [0, 1, 0, - 1] \<and>
   map Position demo_signals = [None, Some 1, Some 1, Some (- 1)] \<and>
   map (most_recent_nonzero (map Signal demo_signals)) [0, 1, 2, 3] =
     [None, Some 1, Some 1, Some (- 1)] \<and>
   ''INFY.NS'' \<in> fst ` set demo_frames \<and>
   map_of [(''OLD.NS'', demo_signals), (''INFY.NS'', demo_signals)] ''INFY.NS'' = Some demo_signals"
proof -
  have old: "\<forall>out \<in> snd ` set old_signals. \<forall>i<length out.
           Signal (out ! i) \<in> {- 1, 0, 1} \<and>
           Position (out ! i) = most_recent_nonzero (map Signal out) i"
    using frame_position[OF demo_run] by (simp add: old_signals_def)
  have mr: "map (most_recent_nonzero (map Signal demo_signals)) [0, 1, 2, 3] =
     [None, Some 1, Some 1, Some (- 1)]"
    by (simp add: demo_signals_def most_recent_nonzero_def)
  show ?thesis
    using signal_ternary_position_ffill[OF demo_frames_run old] demo_frames_run mr
    by (simp add: demo_signals_def demo_frames_def old_signals_def)
qed

text \<open>
  C10, as amended. On a row where one of the three indicators of the signal rule is missing,
  Signal is never \<open>+1\<close>; it is \<open>-1\<close> exactly when a comparison of the sell condition still
  holds on the values that are present (RSI above 70, or the 20-period average below the
  50-period one) and \<open>0\<close> otherwise; in particular it is \<open>0\<close> when the RSI and one of the two
  averages are missing.
\<close>

theorem warmup_signal:
  assumes "generate_signals_df T df0 = Inr out" and "i < length out"
    and "RSI (out ! i) = NaN \<or> MA_20 (out ! i) = NaN \<or> MA_50 (out ! i) = NaN"
  shows "Signal (out ! i) \<noteq> 1 \<and>
         Signal (out ! i) =
           (if cell_gt (RSI (out ! i)) (Val 70) \<or> cell_lt (MA_20 (out ! i)) (MA_50 (out ! i))
            then - 1 else 0) \<and>
         (RSI (out ! i) = NaN \<and> (MA_20 (out ! i) = NaN \<or> MA_50 (out ! i) = NaN)
            \<longrightarrow> Signal (out ! i) = 0)"
proof -
  have nb: "\<not> buy_row (out ! i)"
    using assms(3) by (auto simp: buy_row_def)
  show ?thesis
    using signal_of_row[OF assms(1,2)] nb by (auto simp: sell_row_def)
qed

theorem warmup_signal_witness:
  "generate_signals_df demo_talib demo_bars = Inr demo_signals \<and> 0 < length demo_signals \<and>
   RSI (demo_signals ! 0) = NaN \<and> MA_50 (demo_signals ! 0) = NaN \<and> Signal (demo_signals ! 0) = 0"
proof -
  have len: "0 < length demo_signals" by (simp add: demo_signals_def)
  have nan: "RSI (demo_signals ! 0) = NaN \<or> MA_20 (demo_signals ! 0) = NaN \<or> MA_50 (demo_signals ! 0) = NaN"
    by (simp add: demo_signals_def)
  show ?thesis
    using warmup_signal[OF demo_run len nan] demo_run len
    by (simp add: demo_signals_def)
qed

text \<open>
  C10, the counterexample. The claim as written (any missing indicator gives Signal \<open>0\<close>) fails on the fifteenth row of
  fifteen rising closes: both moving averages are still missing there, the RSI is 100, and the
  row is a sell.
\<close>

theorem warmup_signal_counterexample:
  "(case generate_signals_df rising_talib rising_bars of
      Inl e \<Rightarrow> False
    | Inr out \<Rightarrow> 14 < length out \<and> MA_20 (out ! 14) = NaN \<and> MA_50 (out ! 14) = NaN \<and>
        RSI (out ! 14) = Val 100 \<and> Signal (out ! 14) = - 1)"
  by code_simp

section \<open>Indicator warm-up\<close>

lemma present_length: "present col = Some xs \<Longrightarrow> length xs = length col"
proof (induction col arbitrary: xs)
  case Nil
  then show ?case by simp
next
  case (Cons c col)
  then show ?case by (cases c) auto
qed

lemma present_all: "(\<forall>c \<in> set col. c \<noteq> NaN) \<Longrightarrow> \<exists>xs. present col = Some xs"
proof (induction col)
  case Nil
  then show ?case by simp
next
  case (Cons c col)
  then show ?case by (cases c) auto
qed

lemma length_after_lookback: "length (after_lookback n k f) = n"
  by (simp add: after_lookback_def)

lemma at_row_after_lookback:
  "i < n \<Longrightarrow> at_row (after_lookback n k f) i = (if i < k then NaN else Val (f i))"
  by (simp add: at_row_def after_lookback_def)

lemma calculate_indicators_ta_lib:
  assumes "present (map Close df) = Some xs"
  shows "calculate_indicators (ta_lib V other) df =
    Inr (with_indicators df
      (after_lookback (length df) 14 (value_RSI V xs 14))
      (after_lookback (length df) 19 (value_SMA V xs 20))
      (after_lookback (length df) 49 (value_SMA V xs 50))
      (after_lookback (length df) 33 (\<lambda>i. fst (value_MACD V xs i)))
      (after_lookback (length df) 33 (\<lambda>i. fst (snd (value_MACD V xs i)))))"
  using assms present_length[OF assms]
  by (simp add: calculate_indicators_def ta_lib_def MACD_lookback_def)

lemma nth_with_indicators:
  "i < length df \<Longrightarrow> with_indicators df a b c d e ! i =
     \<lparr>Close = Close (df ! i), Volume = Volume (df ! i), Other = Other (df ! i),
      RSI = at_row a i, MA_20 = at_row b i, MA_50 = at_row c i,
      MACD = at_row d i, MACD_signal = at_row e i\<rparr>"
  by (simp add: with_indicators_def)

text \<open>
  C9. On a close column without a missing value, with the lookbacks the indicator library
  documents (\<open>ta_lib\<close>), \<open>calculate_indicators\<close> returns a frame of the same length in which
  each indicator column is missing exactly on the rows before its lookback: the first 14 rows
  for the RSI, 19 for the 20-period average, 49 for the 50-period average, and 33 for the MACD
  and for its signal line. With rows counted from 1, as the claim counts them, every indicator
  column is therefore defined from row 50 (index 49) onward.
\<close>

theorem indicator_warm_up:
  assumes "\<forall>b \<in> set df. Close b \<noteq> NaN"
  shows "\<exists>out. calculate_indicators (ta_lib V other) df = Inr out \<and> length out = length df \<and>
     (\<forall>i < length df.
        (RSI (out ! i) = NaN \<longleftrightarrow> i < 14) \<and>
        (MA_20 (out ! i) = NaN \<longleftrightarrow> i < 19) \<and>
        (MA_50 (out ! i) = NaN \<longleftrightarrow> i < 49) \<and>
        (MACD (out ! i) = NaN \<longleftrightarrow> i < 33) \<and>
        (MACD_signal (out ! i) = NaN \<longleftrightarrow> i < 33)) \<and>
     (\<forall>i < length df. 49 \<le> i \<longrightarrow>
        RSI (out ! i) \<noteq> NaN \<and> MA_20 (out ! i) \<noteq> NaN \<and> MA_50 (out ! i) \<noteq> NaN \<and>
        MACD (out ! i) \<noteq> NaN \<and> MACD_signal (out ! i) \<noteq> NaN)"
proof -
  have "\<forall>c \<in> set (map Close df). c \<noteq> NaN" using assms by simp
  from present_all[OF this] obtain xs where xs: "present (map Close df) = Some xs" by blast
  note run = calculate_indicators_ta_lib[OF xs, of V other]
  show ?thesis
    unfolding run
    by (simp add: length_with_indicators nth_with_indicators at_row_after_lookback)
qed

lemma length_ramp_bars: "length ramp_bars = 50"
  by (simp add: ramp_bars_def)

theorem indicator_warm_up_witness:
  "NaN \<notin> set (map Close ramp_bars) \<and>
   (\<exists>out. calculate_indicators (ta_lib ramp_values demo_talib) ramp_bars = Inr out \<and>
      length out = 50 \<and>
      RSI (out ! 13) = NaN \<and> RSI (out ! 14) \<noteq> NaN \<and>
      MA_20 (out ! 18) = NaN \<and> MA_20 (out ! 19) \<noteq> NaN \<and>
      MA_50 (out ! 48) = NaN \<and> MA_50 (out ! 49) \<noteq> NaN \<and>
      MACD (out ! 32) = NaN \<and> MACD (out ! 33) \<noteq> NaN \<and>
      MACD_signal (out ! 32) = NaN \<and> MACD_signal (out ! 33) \<noteq> NaN)"
proof -
  have h: "\<forall>b \<in> set ramp_bars. Close b \<noteq> NaN"
    by (simp add: ramp_bars_def mk_bar_def)
  from indicator_warm_up[OF h, of ramp_values demo_talib] obtain out where
    o: "calculate_indicators (ta_lib ramp_values demo_talib) ramp_bars = Inr out"
      "length out = length ramp_bars"
      "\<forall>i < length ramp_bars.
        (RSI (out ! i) = NaN \<longleftrightarrow> i < 14) \<and>
        (MA_20 (out ! i) = NaN \<longleftrightarrow> i < 19) \<and>
        (MA_50 (out ! i) = NaN \<longleftrightarrow> i < 49) \<and>
        (MACD (out ! i) = NaN \<longleftrightarrow> i < 33) \<and>
        (MACD_signal (out ! i) = NaN \<longleftrightarrow> i < 33)" by blast
  have "RSI (out ! 13) = NaN \<and> RSI (out ! 14) \<noteq> NaN \<and>
      MA_20 (out ! 18) = NaN \<and> MA_20 (out ! 19) \<noteq> NaN \<and>
      MA_50 (out ! 48) = NaN \<and> MA_50 (out ! 49) \<noteq> NaN \<and>
      MACD (out ! 32) = NaN \<and> MACD (out ! 33) \<noteq> NaN \<and>
      MACD_signal (out ! 32) = NaN \<and> MACD_signal (out ! 33) \<noteq> NaN"
    using o(3) unfolding length_ramp_bars by simp
  moreover have "NaN \<notin> set (map Close ramp_bars)" using h by auto
  ultimately show ?thesis using o(1,2) length_ramp_bars by simp
qed

section \<open>The label trainer\<close>

lemma length_target_column: "length (target_column c) = length c"
  by (cases c) (simp_all add: target_column_def shift_up_def)

lemma nth_shift_up:
  "i < length c \<Longrightarrow> shift_up c ! i = (if Suc i < length c then c ! Suc i else NaN)"
  by (cases c) (auto simp: shift_up_def nth_append)

lemma length_shift_up: "length (shift_up c) = length c"
  by (cases c) (simp_all add: shift_up_def)

lemma nth_target_column:
  "i < length c \<Longrightarrow>
   target_column c ! i = (if Suc i < length c \<and> cell_gt (c ! Suc i) (c ! i) then 1 else 0)"
  by (simp add: target_column_def length_shift_up nth_shift_up)

lemma target_column_last: "c \<noteq> [] \<Longrightarrow> last (target_column c) = 0"
proof -
  assume ne: "c \<noteq> []"
  then have l: "length c - 1 < length c" by (cases c) simp_all
  have "last (target_column c) = target_column c ! (length c - 1)"
    using ne by (simp add: last_conv_nth length_target_column flip: length_greater_0_conv)
  also have "\<dots> = 0" using ne l by (simp add: nth_target_column)
  finally show ?thesis .
qed

lemma length_with_target:
  "length t = length df \<Longrightarrow> length (with_target df t) = length df"
  by (simp add: with_target_def)

lemma prepare_data_lengths: "length (fst (prepare_data df)) = length (snd (prepare_data df))"
  by (simp add: prepare_data_def Let_def)

lemma last_filter_keep:
  assumes "xs \<noteq> []" and "P (last xs)"
  shows "filter P xs \<noteq> [] \<and> last (filter P xs) = last xs"
proof -
  from assms(1) have "xs = butlast xs @ [last xs]" by simp
  then have "filter P xs = filter P (butlast xs) @ [last xs]"
    using assms(2) by (metis filter.simps(1,2) filter_append)
  then show ?thesis by simp
qed

lemma nth_with_target:
  "length t = length df \<Longrightarrow> i < length df \<Longrightarrow>
   with_target df t ! i =
     \<lparr>Close = Close (df ! i), Volume = Volume (df ! i), Other = Other (df ! i),
      RSI = RSI (df ! i), MA_20 = MA_20 (df ! i), MA_50 = MA_50 (df ! i),
      MACD = MACD (df ! i), MACD_signal = MACD_signal (df ! i),
      Signal = Signal (df ! i), Position = Position (df ! i), Target = t ! i\<rparr>"
  by (simp add: with_target_def)

lemma last_with_target:
  assumes "df \<noteq> []" and "length t = length df"
  shows "has_na (last (with_target df t)) = has_na (last df)
       \<and> feature_row (last (with_target df t)) = feature_row (last df)
       \<and> Target (last (with_target df t)) = last t"
proof -
  have n: "length df - 1 < length df" using assms(1) by (cases df) simp_all
  have t: "t \<noteq> []" using assms by auto
  have lw: "length (with_target df t) = length df" by (rule length_with_target[OF assms(2)])
  then have ne: "with_target df t \<noteq> []" using assms(1) by auto
  have "last (with_target df t) = with_target df t ! (length df - 1)"
    using last_conv_nth[OF ne] lw by simp
  also note nth_with_target[OF assms(2) n]
  finally have eq: "last (with_target df t) =
     \<lparr>Close = Close (df ! (length df - 1)), Volume = Volume (df ! (length df - 1)),
      Other = Other (df ! (length df - 1)),
      RSI = RSI (df ! (length df - 1)), MA_20 = MA_20 (df ! (length df - 1)),
      MA_50 = MA_50 (df ! (length df - 1)),
      MACD = MACD (df ! (length df - 1)), MACD_signal = MACD_signal (df ! (length df - 1)),
      Signal = Signal (df ! (length df - 1)), Position = Position (df ! (length df - 1)),
      Target = t ! (length df - 1)\<rparr>" .
  have ld: "last df = df ! (length df - 1)" by (rule last_conv_nth[OF assms(1)])
  have lt: "last t = t ! (length df - 1)" using last_conv_nth[OF t] assms(2) by simp
  show ?thesis unfolding eq ld lt by (simp add: has_na_def feature_row_def)
qed

lemma prepare_data_keeps_last_row:
  assumes "df \<noteq> []" and "\<not> has_na (last df)"
  shows "snd (prepare_data df) \<noteq> [] \<and> last (snd (prepare_data df)) = 0 \<and>
         last (fst (prepare_data df)) = feature_row (last df)"
proof -
  let ?t = "target_column (map Close df)"
  let ?w = "with_target df ?t"
  have lt: "length ?t = length df" by (simp add: length_target_column)
  have "length ?w = length df" by (rule length_with_target[OF lt])
  then have w: "?w \<noteq> []" using assms(1) by auto
  have lw: "has_na (last ?w) = has_na (last df) \<and> feature_row (last ?w) = feature_row (last df)
       \<and> Target (last ?w) = last ?t"
    by (rule last_with_target[OF assms(1) lt])
  have t0: "last ?t = 0" using assms(1) by (simp add: target_column_last)
  have keep: "dropna ?w \<noteq> [] \<and> last (dropna ?w) = last ?w"
    unfolding dropna_def using w lw assms(2) by (intro last_filter_keep) simp_all
  show ?thesis
    using keep lw t0 by (simp add: prepare_data_def Let_def last_map)
qed

lemma accuracy_score_range:
  assumes "accuracy_score yt yp = Inr a"
  shows "in_unit_interval a"
proof -
  let ?k = "length (filter (\<lambda>(t, p). t = p) (zip yt yp))"
  have len: "length yt = length yp" and ne: "yt \<noteq> []" using assms
    by (auto simp: accuracy_score_def split: if_splits)
  have a: "a = Val (real ?k / real (length yt))"
    using assms by (auto simp: accuracy_score_def split: if_splits)
  have "?k \<le> length (zip yt yp)" by (rule length_filter_le)
  then have k: "?k \<le> length yt" using len by simp
  have pos: "0 < length yt" using ne by simp
  have "real ?k / real (length yt) \<le> 1" using k pos by simp
  moreover have "0 \<le> real ?k / real (length yt)" by simp
  ultimately show ?thesis unfolding a in_unit_interval_def by simp
qed

lemma train_one_skip:
  assumes "fst (prepare_data df) = []"
  shows "train_one sk symbol df st =
    (Inr (), st\<lparr>trainer_events := trainer_events st @ [Log WARNING (NotEnoughData symbol)]\<rparr>)"
proof -
  obtain X y where p: "prepare_data df = (X, y)" by (cases "prepare_data df")
  then have "X = []" using assms by simp
  then show ?thesis unfolding train_one_def p by simp
qed

text \<open>What \<open>train_one\<close> does with a non-empty prepared set: it raises, or it fits and records.\<close>

lemma train_one_nonempty:
  assumes "fst (prepare_data df) \<noteq> []" and "train_one sk symbol df st = (r, st')"
  shows "(\<exists>e. r = Inl e \<and> models st' = models st \<and> accuracies st' = accuracies st \<and>
            (trainer_events st' = trainer_events st \<or>
             trainer_events st' = trainer_events st @ [TreeFit symbol])) \<or>
         (\<exists>model a. r = Inr () \<and> in_unit_interval a \<and>
            models st' = AList.update symbol model (models st) \<and>
            accuracies st' = AList.update symbol a (accuracies st) \<and>
            trainer_events st' =
              trainer_events st @ [TreeFit symbol, Log INFO (ModelTrained symbol a)])"
proof -
  obtain X y where p: "prepare_data df = (X, y)" by (cases "prepare_data df")
  have X: "X \<noteq> []" using assms(1) p by simp
  have y: "y \<noteq> []" using prepare_data_lengths[of df] p X by auto
  show ?thesis
  proof (cases "train_test_split sk (zip X y)")
    case (Inl e)
    then show ?thesis using assms(2) unfolding train_one_def p using X y by auto
  next
    case (Inr s)
    obtain tr te where s: "s = (tr, te)" by (cases s)
    show ?thesis
    proof (cases "tree_fit sk (map fst tr) (map snd tr)")
      case (Inl e)
      then show ?thesis using assms(2) unfolding train_one_def p using X y Inr s
        by (auto simp: Let_def)
    next
      case fit: (Inr model)
      show ?thesis
      proof (cases "tree_predict sk model (map fst te)")
        case (Inl e)
        then show ?thesis using assms(2) unfolding train_one_def p using X y Inr s fit
          by (auto simp: Let_def)
      next
        case pr: (Inr yp)
        show ?thesis
        proof (cases "accuracy_score (map snd te) yp")
          case (Inl e)
          then show ?thesis using assms(2) unfolding train_one_def p using X y Inr s fit pr
            by (auto simp: Let_def)
        next
          case ac: (Inr a)
          have "in_unit_interval a" by (rule accuracy_score_range[OF ac])
          then show ?thesis using assms(2) unfolding train_one_def p using X y Inr s fit pr ac
            by (auto simp: Let_def)
        qed
      qed
    qed
  qed
qed

lemma train_one_frame:
  assumes "train_one sk symbol df st = (r, st')"
  shows "\<exists>ev. trainer_events st' = trainer_events st @ ev \<and>
           (\<forall>s. TreeFit s \<in> set ev \<longrightarrow> s = symbol)"
    and "s \<noteq> symbol \<Longrightarrow> map_of (accuracies st') s = map_of (accuracies st) s"
    and "s \<noteq> symbol \<Longrightarrow> map_of (models st') s = map_of (models st) s"
proof -
  obtain X y where p: "prepare_data df = (X, y)" by (cases "prepare_data df")
  show "\<exists>ev. trainer_events st' = trainer_events st @ ev \<and>
           (\<forall>s. TreeFit s \<in> set ev \<longrightarrow> s = symbol)"
    using assms unfolding train_one_def p
    by (auto simp: Let_def split: sum.splits if_splits)
  show "s \<noteq> symbol \<Longrightarrow> map_of (accuracies st') s = map_of (accuracies st) s"
    using assms unfolding train_one_def p
    by (auto simp: Let_def update_conv' split: sum.splits if_splits)
  show "s \<noteq> symbol \<Longrightarrow> map_of (models st') s = map_of (models st) s"
    using assms unfolding train_one_def p
    by (auto simp: Let_def update_conv' split: sum.splits if_splits)
qed

lemma train_models_Cons:
  "train_one sk symbol df st = (r1, st1) \<Longrightarrow>
   train_models sk ((symbol, df) # rest) st =
     (case r1 of Inl e \<Rightarrow> (Inl e, st1) | Inr u \<Rightarrow> train_models sk rest st1)"
  by (simp split: sum.splits)

lemma train_models_frame:
  assumes "train_models sk signals st = (r, st')"
  shows "(\<exists>ev. trainer_events st' = trainer_events st @ ev \<and>
           (\<forall>s. TreeFit s \<in> set ev \<longrightarrow> s \<in> fst ` set signals)) \<and>
         (\<forall>s. s \<notin> fst ` set signals \<longrightarrow>
            map_of (accuracies st') s = map_of (accuracies st) s \<and>
            map_of (models st') s = map_of (models st) s)"
  using assms
proof (induction signals arbitrary: st)
  case Nil
  then show ?case by simp
next
  case (Cons a rest)
  obtain symbol df where a: "a = (symbol, df)" by (cases a)
  obtain r1 st1 where t1: "train_one sk symbol df st = (r1, st1)"
    by (cases "train_one sk symbol df st")
  from train_models_Cons[OF t1, of rest, symmetric] Cons.prems[unfolded a] have
    eq: "(case r1 of Inl e \<Rightarrow> (Inl e, st1) | Inr u \<Rightarrow> train_models sk rest st1) = (r, st')"
    by (rule trans)
  from train_one_frame(1)[OF t1] obtain ev1 where
    e1: "trainer_events st1 = trainer_events st @ ev1"
    "\<forall>s. TreeFit s \<in> set ev1 \<longrightarrow> s = symbol" by blast
  have o1: "\<forall>s. s \<noteq> symbol \<longrightarrow> map_of (accuracies st1) s = map_of (accuracies st) s \<and>
            map_of (models st1) s = map_of (models st) s"
    using train_one_frame(2,3)[OF t1] by blast
  show ?case
  proof (cases r1)
    case (Inl e)
    then have "st' = st1" using eq by simp
    then show ?thesis using e1 o1 a by auto
  next
    case (Inr u)
    then have rest: "train_models sk rest st1 = (r, st')" using eq by simp
    from Cons.IH[OF rest] obtain ev2 where
      e2: "trainer_events st' = trainer_events st1 @ ev2"
      "\<forall>s. TreeFit s \<in> set ev2 \<longrightarrow> s \<in> fst ` set rest"
      and o2: "\<forall>s. s \<notin> fst ` set rest \<longrightarrow>
            map_of (accuracies st') s = map_of (accuracies st1) s \<and>
            map_of (models st') s = map_of (models st1) s" by blast
    have "trainer_events st' = trainer_events st @ (ev1 @ ev2)" using e1 e2 by simp
    moreover have "\<forall>s. TreeFit s \<in> set (ev1 @ ev2) \<longrightarrow> s \<in> fst ` set (a # rest)"
      using e1(2) e2(2) a by auto
    moreover have "\<forall>s. s \<notin> fst ` set (a # rest) \<longrightarrow>
            map_of (accuracies st') s = map_of (accuracies st) s \<and>
            map_of (models st') s = map_of (models st) s"
      using o1 o2 a by auto
    ultimately show ?thesis by blast
  qed
qed

text \<open>\<open>train_models\<close> raises only at a symbol with a non-empty prepared set.\<close>

lemma train_models_raises:
  assumes "train_models sk signals st = (Inl e, st')"
  shows "\<exists>(s, d) \<in> set signals. fst (prepare_data d) \<noteq> []"
  using assms
proof (induction signals arbitrary: st)
  case Nil
  then show ?case by simp
next
  case (Cons a rest)
  obtain symbol df where a: "a = (symbol, df)" by (cases a)
  obtain r1 st1 where t1: "train_one sk symbol df st = (r1, st1)"
    by (cases "train_one sk symbol df st")
  from train_models_Cons[OF t1, of rest, symmetric] Cons.prems[unfolded a] have
    eq: "(case r1 of Inl e \<Rightarrow> (Inl e, st1) | Inr u \<Rightarrow> train_models sk rest st1) = (Inl e, st')"
    by (rule trans)
  show ?case
  proof (cases r1)
    case (Inl e1)
    have "fst (prepare_data df) \<noteq> []"
    proof
      assume "fst (prepare_data df) = []"
      from train_one_skip[OF this, of sk symbol st] show False using t1 Inl by simp
    qed
    then show ?thesis using a by auto
  next
    case (Inr u)
    then have "train_models sk rest st1 = (Inl e, st')" using eq by simp
    from Cons.IH[OF this] show ?thesis by auto
  qed
qed

text \<open>Every accuracy in the dictionary after a run was there before or lies in [0,1].\<close>

lemma train_one_accuracies:
  assumes "train_one sk symbol df st = (r, st')" and "map_of (accuracies st') s = Some a"
  shows "map_of (accuracies st) s = Some a \<or> in_unit_interval a"
proof (cases "fst (prepare_data df) = []")
  case True
  from train_one_skip[OF this, of sk symbol st] assms show ?thesis by simp
next
  case False
  from train_one_nonempty[OF False assms(1)] assms(2) show ?thesis
    by (auto simp: update_conv' split: if_splits)
qed

lemma train_models_accuracies:
  assumes "train_models sk signals st = (r, st')" and "map_of (accuracies st') s = Some a"
  shows "map_of (accuracies st) s = Some a \<or> in_unit_interval a"
  using assms
proof (induction signals arbitrary: st)
  case Nil
  then show ?case by simp
next
  case (Cons x rest)
  obtain s0 df0 where x: "x = (s0, df0)" by (cases x)
  obtain r1 st1 where t1: "train_one sk s0 df0 st = (r1, st1)"
    by (cases "train_one sk s0 df0 st")
  from train_models_Cons[OF t1, of rest, symmetric] Cons.prems(1)[unfolded x] have
    eq: "(case r1 of Inl e \<Rightarrow> (Inl e, st1) | Inr u \<Rightarrow> train_models sk rest st1) = (r, st')"
    by (rule trans)
  show ?case
  proof (cases r1)
    case (Inl e)
    then have "st' = st1" using eq by simp
    then show ?thesis using train_one_accuracies[OF t1] Cons.prems(2) by simp
  next
    case (Inr u)
    then have "train_models sk rest st1 = (r, st')" using eq by simp
    from Cons.IH[OF this Cons.prems(2)] train_one_accuracies[OF t1, of s a]
    show ?thesis by blast
  qed
qed

lemma train_models_per_symbol:
  assumes "train_models sk signals st = (r, st')"
    and "distinct (map fst signals)"
    and "(symbol, df) \<in> set signals"
  shows "\<exists>ev. trainer_events st' = trainer_events st @ ev \<and>
     (fst (prepare_data df) = [] \<longrightarrow>
        TreeFit symbol \<notin> set ev \<and>
        map_of (accuracies st') symbol = map_of (accuracies st) symbol \<and>
        map_of (models st') symbol = map_of (models st) symbol) \<and>
     (r = Inr () \<longrightarrow>
        (if fst (prepare_data df) = []
         then Log WARNING (NotEnoughData symbol) \<in> set ev
         else TreeFit symbol \<in> set ev \<and>
              (\<exists>a. map_of (accuracies st') symbol = Some a \<and> in_unit_interval a) \<and>
              map_of (models st') symbol \<noteq> None))"
  using assms
proof (induction signals arbitrary: st)
  case Nil
  then show ?case by simp
next
  case (Cons x rest)
  obtain s0 df0 where x: "x = (s0, df0)" by (cases x)
  obtain r1 st1 where t1: "train_one sk s0 df0 st = (r1, st1)"
    by (cases "train_one sk s0 df0 st")
  from train_models_Cons[OF t1, of rest, symmetric] Cons.prems(1)[unfolded x] have
    eq: "(case r1 of Inl e \<Rightarrow> (Inl e, st1) | Inr u \<Rightarrow> train_models sk rest st1) = (r, st')"
    by (rule trans)
  have dist: "s0 \<notin> fst ` set rest" "distinct (map fst rest)"
    using Cons.prems(2) x by auto
  from train_one_frame(1)[OF t1] obtain ev1 where
    e1: "trainer_events st1 = trainer_events st @ ev1"
    "\<forall>s. TreeFit s \<in> set ev1 \<longrightarrow> s = s0" by blast
  show ?case
  proof (cases r1)
    case (Inl e)
    then have st': "st' = st1" and r: "r = Inl e" using eq by simp_all
    show ?thesis
    proof (cases "(symbol, df) = (s0, df0)")
      case True
      have "fst (prepare_data df0) \<noteq> []"
      proof
        assume "fst (prepare_data df0) = []"
        from train_one_skip[OF this, of sk s0 st] show False using t1 Inl by simp
      qed
      then show ?thesis using True e1(1) st' r by simp
    next
      case False
      then have "(symbol, df) \<in> set rest" using Cons.prems(3) x by auto
      then have "symbol \<in> fst ` set rest" by force
      then have ne: "symbol \<noteq> s0" using dist(1) by auto
      have "TreeFit symbol \<notin> set ev1" using e1(2) ne by blast
      then show ?thesis using train_one_frame(2,3)[OF t1 ne] e1(1) st' r by simp
    qed
  next
    case (Inr u)
    then have rest: "train_models sk rest st1 = (r, st')" using eq by simp
    have t1': "train_one sk s0 df0 st = (Inr (), st1)" using t1 Inr by simp
    from train_models_frame[OF rest] obtain ev2 where
      e2: "trainer_events st' = trainer_events st1 @ ev2"
      "\<forall>s. TreeFit s \<in> set ev2 \<longrightarrow> s \<in> fst ` set rest"
      and o2: "\<forall>s. s \<notin> fst ` set rest \<longrightarrow>
            map_of (accuracies st') s = map_of (accuracies st1) s \<and>
            map_of (models st') s = map_of (models st1) s" by blast
    have ev: "trainer_events st' = trainer_events st @ (ev1 @ ev2)" using e1 e2 by simp
    show ?thesis
    proof (cases "(symbol, df) = (s0, df0)")
      case True
      then have s: "symbol = s0" and d: "df = df0" by simp_all
      have n2: "TreeFit symbol \<notin> set ev2" using e2(2) dist(1) s by blast
      have keep: "map_of (accuracies st') symbol = map_of (accuracies st1) symbol"
        "map_of (models st') symbol = map_of (models st1) symbol"
        using o2 dist(1) s by simp_all
      show ?thesis
      proof (cases "fst (prepare_data df) = []")
        case True
        have "st1 = st\<lparr>trainer_events := trainer_events st @ [Log WARNING (NotEnoughData s0)]\<rparr>"
          using train_one_skip[of df0 sk s0 st] True d t1 by simp
        then have "ev1 = [Log WARNING (NotEnoughData s0)]"
          "accuracies st1 = accuracies st" "models st1 = models st"
          using e1(1) by simp_all
        then show ?thesis using True ev n2 keep s by (intro exI[of _ "ev1 @ ev2"]) simp
      next
        case False
        then have "fst (prepare_data df0) \<noteq> []" using d by simp
        from train_one_nonempty[OF this t1'] obtain model acc where
          f: "in_unit_interval acc"
          "models st1 = AList.update s0 model (models st)"
          "accuracies st1 = AList.update s0 acc (accuracies st)"
          "trainer_events st1 = trainer_events st @ [TreeFit s0, Log INFO (ModelTrained s0 acc)]"
          by auto
        have "ev1 = [TreeFit s0, Log INFO (ModelTrained s0 acc)]" using f(4) e1(1) by simp
        moreover have "map_of (accuracies st') symbol = Some acc"
          using keep(1) f(3) s by (simp add: update_conv')
        moreover have "map_of (models st') symbol = Some model"
          using keep(2) f(2) s by (simp add: update_conv')
        ultimately show ?thesis using False ev f(1) s
          by (intro exI[of _ "ev1 @ ev2"]) simp
      qed
    next
      case False
      then have mem: "(symbol, df) \<in> set rest" using Cons.prems(3) x by auto
      then have "symbol \<in> fst ` set rest" by force
      then have ne: "symbol \<noteq> s0" using dist(1) by auto
      have n1: "TreeFit symbol \<notin> set ev1" using e1(2) ne by blast
      have keep1: "map_of (accuracies st1) symbol = map_of (accuracies st) symbol"
        "map_of (models st1) symbol = map_of (models st) symbol"
        using train_one_frame(2,3)[OF t1 ne] by simp_all
      from Cons.IH[OF rest dist(2) mem] obtain ev2' where
        i: "trainer_events st' = trainer_events st1 @ ev2'"
        "fst (prepare_data df) = [] \<longrightarrow>
           TreeFit symbol \<notin> set ev2' \<and>
           map_of (accuracies st') symbol = map_of (accuracies st1) symbol \<and>
           map_of (models st') symbol = map_of (models st1) symbol"
        "r = Inr () \<longrightarrow>
          (if fst (prepare_data df) = []
           then Log WARNING (NotEnoughData symbol) \<in> set ev2'
           else TreeFit symbol \<in> set ev2' \<and>
              (\<exists>a. map_of (accuracies st') symbol = Some a \<and> in_unit_interval a) \<and>
              map_of (models st') symbol \<noteq> None)" by blast
      have "trainer_events st' = trainer_events st @ (ev1 @ ev2')" using e1(1) i(1) by simp
      then show ?thesis using i(2,3) n1 keep1
        by (intro exI[of _ "ev1 @ ev2'"]) (simp split: if_splits)
    qed
  qed
qed

lemma two_symbols_run: "train_models demo_sklearn two_symbols empty_trainer = (Inr (), two_symbols_trained)"
  by code_simp

lemma one_row_first_run:
  "train_models demo_sklearn one_row_first empty_trainer =
     (Inl (Exception ''the resulting train set will be empty''),
      empty_trainer)"
  by code_simp

text \<open>
  C3. The claim: every row but the last is labelled 1 when the next close is strictly greater
  and 0 otherwise, and the last row gets no label and is dropped. The first half holds
  (\<open>nth_target_column\<close>). The second does not: the comparison with the missing next close is
  false, so the last row is labelled 0, and a last row without a missing cell stays in the
  training set (\<open>prepare_data_keeps_last_row\<close>). Here, on two complete rows with closes 10
  and 11, both rows are kept and the labels are 1 and 0.
\<close>

theorem prepare_data_last_row_labelled:
  "prepare_data rising_pair =
     ([[Val 50, Val 0, Val 1000, Val 2, Val 1], [Val 50, Val 0, Val 1000, Val 2, Val 1]], [1, 0])"
  by code_simp

text \<open>
  C4, as amended. For any run of \<open>train_models\<close> over distinct symbols, returning or raising,
  and any symbol of the dictionary:

    \<^item> if its prepared feature set is empty, no fit is attempted for it and neither a model nor
      an accuracy is recorded for it;
    \<^item> if the run returns, then a symbol with an empty prepared set has had the warning logged,
      and a symbol with a non-empty prepared set has been fitted and has a model and an
      accuracy in [0,1] recorded, whatever the number of distinct labels;
    \<^item> \<open>train_models\<close> catches nothing, so the run may raise; it does so only at a symbol
      whose prepared set is not empty (the splitter, the fit, the prediction or the scorer
      raised there), and the symbols after it are not reached;
    \<^item> every accuracy in the dictionary after the run was there before it or lies in [0,1].
\<close>

theorem train_models_skips_only_empty:
  assumes "train_models sk signals st = (r, st')"
    and "distinct (map fst signals)"
    and "(symbol, df) \<in> set signals"
  shows "(fst (prepare_data df) = [] \<longrightarrow>
            TreeFit symbol \<notin> set (drop (length (trainer_events st)) (trainer_events st')) \<and>
            map_of (accuracies st') symbol = map_of (accuracies st) symbol \<and>
            map_of (models st') symbol = map_of (models st) symbol) \<and>
         (r = Inr () \<longrightarrow>
            (if fst (prepare_data df) = []
             then Log WARNING (NotEnoughData symbol)
                    \<in> set (drop (length (trainer_events st)) (trainer_events st'))
             else TreeFit symbol \<in> set (drop (length (trainer_events st)) (trainer_events st')) \<and>
                  (\<exists>a. map_of (accuracies st') symbol = Some a \<and> in_unit_interval a) \<and>
                  map_of (models st') symbol \<noteq> None)) \<and>
         (\<forall>e. r = Inl e \<longrightarrow> (\<exists>(s, d) \<in> set signals. fst (prepare_data d) \<noteq> [])) \<and>
         (\<forall>s a. map_of (accuracies st') s = Some a \<longrightarrow>
            map_of (accuracies st) s = Some a \<or> in_unit_interval a)"
proof -
  from train_models_per_symbol[OF assms] obtain ev where
    ev: "trainer_events st' = trainer_events st @ ev"
    and c: "fst (prepare_data df) = [] \<longrightarrow>
        TreeFit symbol \<notin> set ev \<and>
        map_of (accuracies st') symbol = map_of (accuracies st) symbol \<and>
        map_of (models st') symbol = map_of (models st) symbol"
      "r = Inr () \<longrightarrow>
        (if fst (prepare_data df) = []
         then Log WARNING (NotEnoughData symbol) \<in> set ev
         else TreeFit symbol \<in> set ev \<and>
              (\<exists>a. map_of (accuracies st') symbol = Some a \<and> in_unit_interval a) \<and>
              map_of (models st') symbol \<noteq> None)" by blast
  have d: "drop (length (trainer_events st)) (trainer_events st') = ev" using ev by simp
  have raise: "\<forall>e. r = Inl e \<longrightarrow> (\<exists>(s, d) \<in> set signals. fst (prepare_data d) \<noteq> [])"
    using train_models_raises assms(1) by blast
  have acc: "\<forall>s a. map_of (accuracies st') s = Some a \<longrightarrow>
            map_of (accuracies st) s = Some a \<or> in_unit_interval a"
    using train_models_accuracies[OF assms(1)] by blast
  show ?thesis unfolding d using c raise acc by blast
qed

theorem train_models_skips_only_empty_witness:
  "train_models demo_sklearn two_symbols empty_trainer = (Inr (), two_symbols_trained) \<and>
   distinct (map fst two_symbols) \<and>
   fst (prepare_data demo_signals) = [] \<and>
   TreeFit ''RELIANCE.NS'' \<notin> set (trainer_events two_symbols_trained) \<and>
   Log WARNING (NotEnoughData ''RELIANCE.NS'') \<in> set (trainer_events two_symbols_trained) \<and>
   map_of (accuracies two_symbols_trained) ''RELIANCE.NS'' = None \<and>
   fst (prepare_data falling_pair) \<noteq> [] \<and>
   TreeFit ''INFY.NS'' \<in> set (trainer_events two_symbols_trained) \<and>
   map_of (accuracies two_symbols_trained) ''INFY.NS'' = Some (Val 1) \<and>
   in_unit_interval (Val 1) \<and>
   train_models demo_sklearn one_row_first empty_trainer =
     (Inl (Exception ''the resulting train set will be empty''), empty_trainer) \<and>
   distinct (map fst one_row_first) \<and>
   (\<exists>(s, d) \<in> set one_row_first. fst (prepare_data d) \<noteq> [])"
proof -
  have d: "distinct (map fst two_symbols)" by (simp add: two_symbols_def)
  have m1: "(''RELIANCE.NS'', demo_signals) \<in> set two_symbols" by (simp add: two_symbols_def)
  have m2: "(''INFY.NS'', falling_pair) \<in> set two_symbols" by (simp add: two_symbols_def)
  have d3: "distinct (map fst one_row_first)" by (simp add: one_row_first_def)
  have m3: "(''INFY.NS'', falling_pair) \<in> set one_row_first" by (simp add: one_row_first_def)
  have p1: "fst (prepare_data demo_signals) = []" by code_simp
  have p2: "fst (prepare_data falling_pair) \<noteq> []" by code_simp
  note t1 = train_models_skips_only_empty[OF two_symbols_run d m1]
  note t2 = train_models_skips_only_empty[OF two_symbols_run d m2]
  note t3 = train_models_skips_only_empty[OF one_row_first_run d3 m3]
  have a: "map_of (accuracies two_symbols_trained) ''INFY.NS'' = Some (Val 1)"
    by (simp add: two_symbols_trained_def)
  have r3: "\<exists>(s, d) \<in> set one_row_first. fst (prepare_data d) \<noteq> []" using t3 by blast
  have u: "in_unit_interval (Val 1)" using t2 a by (auto simp: empty_trainer_def)
  show ?thesis
    using t1 t2 p1 p2 d d3 r3 u two_symbols_run one_row_first_run
    by (simp add: empty_trainer_def two_symbols_trained_def)
qed

text \<open>
  C4, the counterexample. The claim as written (a label set with fewer than two classes is
  skipped) fails on two complete rows with a falling close: both labels are 0, the tree is
  fitted and an accuracy is recorded.
\<close>

theorem single_class_counterexample:
  "length (remdups (snd (prepare_data falling_pair))) < 2 \<and>
   train_models demo_sklearn [(''INFY.NS'', falling_pair)] empty_trainer =
     (Inr (),
      \<lparr>models = [(''INFY.NS'', ())], accuracies = [(''INFY.NS'', Val 1)],
       trainer_events = [TreeFit ''INFY.NS'', Log INFO (ModelTrained ''INFY.NS'' (Val 1))]\<rparr>)"
  by code_simp

section \<open>The series fetcher\<close>








lemma attempt_info_limited:
  assumes "is_rate_limit m" and "ticker_info P (calls st) symbol = Inl (Exception m)"
  shows "attempt P symbol period st =
    (Inr Continue,
     st\<lparr>calls := Suc (calls st),
        fetch_events := fetch_events st @
          [Log INFO (Attempting symbol period), TickerInfo symbol,
           Log WARNING (InfoFailed symbol m), Log INFO RateLimited, Sleep 5]\<rparr>)"
  using assms
  unfolding attempt_def attempt_try_def attempt_except_def info_try_def info_except_def
    try_except_def call_info_def call_history_def emit_def Let_def
  by simp

lemma attempt_history_limited:
  assumes "is_rate_limit m" and "ticker_info P (calls st) symbol = Inr True"
    and "ticker_history P (Suc (calls st)) symbol period = Inl (Exception m)"
  shows "attempt P symbol period st =
    (Inr Continue,
     st\<lparr>calls := Suc (Suc (calls st)),
        fetch_events := fetch_events st @
          [Log INFO (Attempting symbol period), TickerInfo symbol,
           Log INFO (InfoRetrieved symbol), TickerHistory symbol period,
           Log ERROR (FetchError symbol period m), Log INFO RateLimited, Sleep 5]\<rparr>)"
  using assms
  unfolding attempt_def attempt_try_def attempt_except_def info_try_def info_except_def
    try_except_def call_info_def call_history_def emit_def Let_def
  by simp

lemma attempt_history_limited_after_info_error:
  assumes "is_rate_limit m" and "ticker_info P (calls st) symbol = Inl (Exception m0)"
    and "\<not> is_rate_limit m0"
    and "ticker_history P (Suc (calls st)) symbol period = Inl (Exception m)"
  shows "attempt P symbol period st =
    (Inr Continue,
     st\<lparr>calls := Suc (Suc (calls st)),
        fetch_events := fetch_events st @
          [Log INFO (Attempting symbol period), TickerInfo symbol,
           Log WARNING (InfoFailed symbol m0), TickerHistory symbol period,
           Log ERROR (FetchError symbol period m), Log INFO RateLimited, Sleep 5]\<rparr>)"
  using assms
  unfolding attempt_def attempt_try_def attempt_except_def info_try_def info_except_def
    try_except_def call_info_def call_history_def emit_def Let_def
  by simp

text \<open>The history requests of an attempt, and of the loop over a list of periods.\<close>

lemma attempt_requests:
  assumes "attempt P symbol period st = (r, st')"
  shows "\<exists>ev. fetch_events st' = fetch_events st @ ev \<and>
           (\<forall>s p. TickerHistory s p \<in> set ev \<longrightarrow> s = symbol \<and> p = period)"
  using assms
  unfolding attempt_def attempt_try_def attempt_except_def info_try_def info_except_def
    try_except_def call_info_def call_history_def emit_def Let_def
  by (auto split: sum.splits exn.splits if_splits bool.splits prod.splits list.splits)

lemma try_periods_requests:
  "\<exists>ev. fetch_events (snd (try_periods P symbol ps st)) = fetch_events st @ ev \<and>
           (\<forall>s p. TickerHistory s p \<in> set ev \<longrightarrow> s = symbol \<and> p \<in> set ps)"
proof (induction ps arbitrary: st)
  case Nil
  then show ?case by simp
next
  case (Cons period rest)
  obtain r st1 where a: "attempt P symbol period st = (r, st1)"
    by (cases "attempt P symbol period st")
  from attempt_requests[OF a] obtain ev1 where
    e1: "fetch_events st1 = fetch_events st @ ev1"
    "\<forall>s p. TickerHistory s p \<in> set ev1 \<longrightarrow> s = symbol \<and> p = period" by blast
  from Cons.IH[of st1] obtain ev2 where
    e2: "fetch_events (snd (try_periods P symbol rest st1)) = fetch_events st1 @ ev2"
    "\<forall>s p. TickerHistory s p \<in> set ev2 \<longrightarrow> s = symbol \<and> p \<in> set rest" by blast
  have "snd (try_periods P symbol (period # rest) st) = st1 \<or>
        snd (try_periods P symbol (period # rest) st) = snd (try_periods P symbol rest st1)"
    using a by (simp split: sum.splits flow.splits)
  then consider "snd (try_periods P symbol (period # rest) st) = st1"
    | "snd (try_periods P symbol (period # rest) st) = snd (try_periods P symbol rest st1)"
    by blast
  then show ?case
  proof cases
    case 1
    then show ?thesis using e1 by auto
  next
    case 2
    have "fetch_events (snd (try_periods P symbol (period # rest) st)) = fetch_events st @ (ev1 @ ev2)"
      using 2 e1(1) e2(1) by simp
    moreover have "\<forall>s p. TickerHistory s p \<in> set (ev1 @ ev2) \<longrightarrow> s = symbol \<and> p \<in> set (period # rest)"
      using e1(2) e2(2) by auto
    ultimately show ?thesis by blast
  qed
qed

lemma try_periods_later_requests:
  "TickerHistory s p \<in> set (drop (length (fetch_events st)) (fetch_events (snd (try_periods P symbol ps st))))
     \<Longrightarrow> s = symbol \<and> p \<in> set ps"
proof -
  assume h: "TickerHistory s p \<in> set (drop (length (fetch_events st)) (fetch_events (snd (try_periods P symbol ps st))))"
  from try_periods_requests[of P symbol ps st] obtain ev where
    e: "fetch_events (snd (try_periods P symbol ps st)) = fetch_events st @ ev"
    "\<forall>s p. TickerHistory s p \<in> set ev \<longrightarrow> s = symbol \<and> p \<in> set ps" by blast
  have "drop (length (fetch_events st)) (fetch_events (snd (try_periods P symbol ps st))) = ev"
    using e(1) by simp
  then show ?thesis using h e(2) by simp
qed

text \<open>
  C2, as amended. When a provider call of an attempt raises a rate-limit error (the \<open>info\<close>
  call, or the \<open>history\<close> call after an \<open>info\<close> call that returned or failed otherwise), the
  attempt ends with the five-second pause and the loop goes on with the remaining entries of
  the period list, making no retry of its own. Every history request made after the pause is
  for one of the remaining entries, so the rate-limited period is requested again only where
  the list names it again (the list is the preferred period, \<open>3mo\<close>, \<open>1mo\<close>, \<open>1y\<close>: a
  preferred period of \<open>3mo\<close>, \<open>1mo\<close> or \<open>1y\<close> comes twice).
\<close>

theorem rate_limit_moves_on:
  assumes "is_rate_limit m"
  shows "(ticker_info P (calls st) symbol = Inl (Exception m) \<longrightarrow>
            try_periods P symbol (period # rest) st =
            try_periods P symbol rest
              (st\<lparr>calls := Suc (calls st),
                  fetch_events := fetch_events st @
                    [Log INFO (Attempting symbol period), TickerInfo symbol,
                     Log WARNING (InfoFailed symbol m), Log INFO RateLimited, Sleep 5]\<rparr>)) \<and>
         (ticker_info P (calls st) symbol = Inr True \<and>
          ticker_history P (Suc (calls st)) symbol period = Inl (Exception m) \<longrightarrow>
            try_periods P symbol (period # rest) st =
            try_periods P symbol rest
              (st\<lparr>calls := Suc (Suc (calls st)),
                  fetch_events := fetch_events st @
                    [Log INFO (Attempting symbol period), TickerInfo symbol,
                     Log INFO (InfoRetrieved symbol), TickerHistory symbol period,
                     Log ERROR (FetchError symbol period m), Log INFO RateLimited, Sleep 5]\<rparr>)) \<and>
         (ticker_info P (calls st) symbol = Inl (Exception m0) \<and> \<not> is_rate_limit m0 \<and>
          ticker_history P (Suc (calls st)) symbol period = Inl (Exception m) \<longrightarrow>
            try_periods P symbol (period # rest) st =
            try_periods P symbol rest
              (st\<lparr>calls := Suc (Suc (calls st)),
                  fetch_events := fetch_events st @
                    [Log INFO (Attempting symbol period), TickerInfo symbol,
                     Log WARNING (InfoFailed symbol m0), TickerHistory symbol period,
                     Log ERROR (FetchError symbol period m), Log INFO RateLimited, Sleep 5]\<rparr>)) \<and>
         (\<forall>st1 s p.
            TickerHistory s p \<in> set (drop (length (fetch_events st1))
                                        (fetch_events (snd (try_periods P symbol rest st1)))) \<longrightarrow>
            s = symbol \<and> p \<in> set rest)"
  using attempt_info_limited[OF assms, of P st symbol period]
    attempt_history_limited[OF assms, of P st symbol period]
    attempt_history_limited_after_info_error[OF assms, of P st symbol m0 period]
    try_periods_later_requests[of _ _ _ P symbol rest]
  by simp

lemmas fetch_eval =
  fetch_data_def attempt_def attempt_try_def attempt_except_def info_try_def info_except_def
  try_except_def call_info_def call_history_def emit_def Let_def

lemma rl1: "is_rate_limit ''429 Too Many Requests''" by code_simp
lemma rl2: "is_rate_limit ''Too Many Requests''" by code_simp
lemma rl3: "is_rate_limit ''HTTP 429''" by code_simp
lemma rl4: "\<not> is_rate_limit ''timed out''" by code_simp

text \<open>
  C2, the counterexample. The claim as written (the same period is retried once) fails when
  the first \<open>history\<close> call is rate-limited: \<open>6mo\<close> is requested once, and the call after
  the pause asks for \<open>3mo\<close>.
\<close>

theorem rate_limit_counterexample:
  "fetch_data limited_history ''6mo'' [''INFY.NS''] 0 =
     (Inr [(''INFY.NS'', demo_bars)],
      \<lparr>data = [(''INFY.NS'', demo_bars)], calls = 4,
       fetch_events =
         [Log INFO (Attempting ''INFY.NS'' ''6mo''), TickerInfo ''INFY.NS'',
          Log INFO (InfoRetrieved ''INFY.NS''), TickerHistory ''INFY.NS'' ''6mo'',
          Log ERROR (FetchError ''INFY.NS'' ''6mo'' ''429 Too Many Requests''),
          Log INFO RateLimited, Sleep 5,
          Log INFO (Attempting ''INFY.NS'' ''3mo''), TickerInfo ''INFY.NS'',
          Log INFO (InfoRetrieved ''INFY.NS''), TickerHistory ''INFY.NS'' ''3mo'',
          Log INFO (Retrieved 4 ''INFY.NS'' ''3mo'')]\<rparr>)"
  by (simp add: fetch_eval limited_history_def rl1 demo_bars_def)

theorem rate_limit_moves_on_witness:
  "is_rate_limit ''Too Many Requests'' \<and>
   ticker_info limited_info (calls (fresh 0)) ''INFY.NS'' = Inl (Exception ''Too Many Requests'') \<and>
   try_periods limited_info ''INFY.NS'' [''6mo'', ''3mo''] (fresh 0) =
   try_periods limited_info ''INFY.NS'' [''3mo'']
     \<lparr>data = [], calls = 1,
      fetch_events = [Log INFO (Attempting ''INFY.NS'' ''6mo''), TickerInfo ''INFY.NS'',
        Log WARNING (InfoFailed ''INFY.NS'' ''Too Many Requests''), Log INFO RateLimited, Sleep 5]\<rparr> \<and>
   is_rate_limit ''429 Too Many Requests'' \<and>
   ticker_info limited_history (calls (fresh 0)) ''INFY.NS'' = Inr True \<and>
   ticker_history limited_history (Suc (calls (fresh 0))) ''INFY.NS'' ''6mo'' =
     Inl (Exception ''429 Too Many Requests'') \<and>
   try_periods limited_history ''INFY.NS'' [''6mo'', ''3mo''] (fresh 0) =
   try_periods limited_history ''INFY.NS'' [''3mo'']
     \<lparr>data = [], calls = 2,
      fetch_events = [Log INFO (Attempting ''INFY.NS'' ''6mo''), TickerInfo ''INFY.NS'',
        Log INFO (InfoRetrieved ''INFY.NS''), TickerHistory ''INFY.NS'' ''6mo'',
        Log ERROR (FetchError ''INFY.NS'' ''6mo'' ''429 Too Many Requests''),
        Log INFO RateLimited, Sleep 5]\<rparr> \<and>
   is_rate_limit ''HTTP 429'' \<and> \<not> is_rate_limit ''timed out'' \<and>
   ticker_info limited_info (calls (fresh 1)) ''INFY.NS'' = Inl (Exception ''timed out'') \<and>
   ticker_history limited_info (Suc (calls (fresh 1))) ''INFY.NS'' ''1mo'' =
     Inl (Exception ''HTTP 429'') \<and>
   try_periods limited_info ''INFY.NS'' [''1mo'', ''1y''] (fresh 1) =
   try_periods limited_info ''INFY.NS'' [''1y'']
     \<lparr>data = [], calls = 3,
      fetch_events = [Log INFO (Attempting ''INFY.NS'' ''1mo''), TickerInfo ''INFY.NS'',
        Log WARNING (InfoFailed ''INFY.NS'' ''timed out''), TickerHistory ''INFY.NS'' ''1mo'',
        Log ERROR (FetchError ''INFY.NS'' ''1mo'' ''HTTP 429''),
        Log INFO RateLimited, Sleep 5]\<rparr> \<and>
   try_periods limited_history ''INFY.NS'' [''3mo'', ''3mo'', ''1mo'', ''1y''] (fresh 0) =
   try_periods limited_history ''INFY.NS'' [''3mo'', ''1mo'', ''1y'']
     \<lparr>data = [], calls = 2,
      fetch_events = [Log INFO (Attempting ''INFY.NS'' ''3mo''), TickerInfo ''INFY.NS'',
        Log INFO (InfoRetrieved ''INFY.NS''), TickerHistory ''INFY.NS'' ''3mo'',
        Log ERROR (FetchError ''INFY.NS'' ''3mo'' ''429 Too Many Requests''),
        Log INFO RateLimited, Sleep 5]\<rparr> \<and>
   TickerHistory ''INFY.NS'' ''3mo''
     \<in> set (drop (length (fetch_events (fresh 2)))
                (fetch_events (snd (try_periods limited_history ''INFY.NS'' [''3mo'', ''1mo'', ''1y'']
                                     (fresh 2))))) \<and>
   ''3mo'' \<in> set [''3mo'', ''1mo'', ''1y''] \<and>
   fetch_data limited_history ''3mo'' [''INFY.NS''] 0 =
     (Inr [(''INFY.NS'', demo_bars)],
      \<lparr>data = [(''INFY.NS'', demo_bars)], calls = 4,
       fetch_events =
         [Log INFO (Attempting ''INFY.NS'' ''3mo''), TickerInfo ''INFY.NS'',
          Log INFO (InfoRetrieved ''INFY.NS''), TickerHistory ''INFY.NS'' ''3mo'',
          Log ERROR (FetchError ''INFY.NS'' ''3mo'' ''429 Too Many Requests''),
          Log INFO RateLimited, Sleep 5,
          Log INFO (Attempting ''INFY.NS'' ''3mo''), TickerInfo ''INFY.NS'',
          Log INFO (InfoRetrieved ''INFY.NS''), TickerHistory ''INFY.NS'' ''3mo'',
          Log INFO (Retrieved 4 ''INFY.NS'' ''3mo'')]\<rparr>)"
proof -
  have i1: "ticker_info limited_info (calls (fresh 0)) ''INFY.NS'' = Inl (Exception ''Too Many Requests'')"
    by (simp add: limited_info_def fresh_def)
  have i2: "ticker_info limited_history (calls (fresh 0)) ''INFY.NS'' = Inr True"
    by (simp add: limited_history_def fresh_def)
  have h2: "ticker_history limited_history (Suc (calls (fresh 0))) ''INFY.NS'' ''6mo'' =
     Inl (Exception ''429 Too Many Requests'')"
    by (simp add: limited_history_def fresh_def)
  have i3: "ticker_info limited_info (calls (fresh 1)) ''INFY.NS'' = Inl (Exception ''timed out'')"
    by (simp add: limited_info_def fresh_def)
  have h3: "ticker_history limited_info (Suc (calls (fresh 1))) ''INFY.NS'' ''1mo'' =
     Inl (Exception ''HTTP 429'')"
    by (simp add: limited_info_def fresh_def)
  have h4: "ticker_history limited_history (Suc (calls (fresh 0))) ''INFY.NS'' ''3mo'' =
     Inl (Exception ''429 Too Many Requests'')"
    by (simp add: limited_history_def fresh_def)
  note d = rate_limit_moves_on[OF rl1, of limited_history "fresh 0" "''INFY.NS''" "''3mo''"
      "[''3mo'', ''1mo'', ''1y'']"]
  note a = rate_limit_moves_on[OF rl2, of limited_info "fresh 0" "''INFY.NS''" "''6mo''" "[''3mo'']"]
  note b = rate_limit_moves_on[OF rl1, of limited_history "fresh 0" "''INFY.NS''" "''6mo''" "[''3mo'']"]
  note c = rate_limit_moves_on[OF rl3, of limited_info "fresh 1" "''INFY.NS''" "''1mo''" "[''1y'']" "''timed out''"]
  have a': "try_periods limited_info ''INFY.NS'' [''6mo'', ''3mo''] (fresh 0) =
   try_periods limited_info ''INFY.NS'' [''3mo'']
     \<lparr>data = [], calls = 1,
      fetch_events = [Log INFO (Attempting ''INFY.NS'' ''6mo''), TickerInfo ''INFY.NS'',
        Log WARNING (InfoFailed ''INFY.NS'' ''Too Many Requests''), Log INFO RateLimited, Sleep 5]\<rparr>"
    using a i1 by (simp add: fresh_def numeral_2_eq_2 numeral_3_eq_3 del: try_periods.simps)
  have b': "try_periods limited_history ''INFY.NS'' [''6mo'', ''3mo''] (fresh 0) =
   try_periods limited_history ''INFY.NS'' [''3mo'']
     \<lparr>data = [], calls = 2,
      fetch_events = [Log INFO (Attempting ''INFY.NS'' ''6mo''), TickerInfo ''INFY.NS'',
        Log INFO (InfoRetrieved ''INFY.NS''), TickerHistory ''INFY.NS'' ''6mo'',
        Log ERROR (FetchError ''INFY.NS'' ''6mo'' ''429 Too Many Requests''),
        Log INFO RateLimited, Sleep 5]\<rparr>"
    using b i2 h2 by (simp add: fresh_def numeral_2_eq_2 numeral_3_eq_3 del: try_periods.simps)
  have c': "try_periods limited_info ''INFY.NS'' [''1mo'', ''1y''] (fresh 1) =
   try_periods limited_info ''INFY.NS'' [''1y'']
     \<lparr>data = [], calls = 3,
      fetch_events = [Log INFO (Attempting ''INFY.NS'' ''1mo''), TickerInfo ''INFY.NS'',
        Log WARNING (InfoFailed ''INFY.NS'' ''timed out''), TickerHistory ''INFY.NS'' ''1mo'',
        Log ERROR (FetchError ''INFY.NS'' ''1mo'' ''HTTP 429''),
        Log INFO RateLimited, Sleep 5]\<rparr>"
    using c i3 h3 rl4 by (simp add: fresh_def numeral_2_eq_2 numeral_3_eq_3 del: try_periods.simps)
  have d': "try_periods limited_history ''INFY.NS'' [''3mo'', ''3mo'', ''1mo'', ''1y''] (fresh 0) =
   try_periods limited_history ''INFY.NS'' [''3mo'', ''1mo'', ''1y'']
     \<lparr>data = [], calls = 2,
      fetch_events = [Log INFO (Attempting ''INFY.NS'' ''3mo''), TickerInfo ''INFY.NS'',
        Log INFO (InfoRetrieved ''INFY.NS''), TickerHistory ''INFY.NS'' ''3mo'',
        Log ERROR (FetchError ''INFY.NS'' ''3mo'' ''429 Too Many Requests''),
        Log INFO RateLimited, Sleep 5]\<rparr>"
    using d i2 h4 by (simp add: fresh_def numeral_2_eq_2 numeral_3_eq_3 del: try_periods.simps)
  have e: "TickerHistory ''INFY.NS'' ''3mo''
     \<in> set (drop (length (fetch_events (fresh 2)))
                (fetch_events (snd (try_periods limited_history ''INFY.NS'' [''3mo'', ''1mo'', ''1y'']
                                     (fresh 2)))))"
    by (simp add: fetch_eval fresh_def limited_history_def demo_bars_def)
  have e': "''3mo'' \<in> set [''3mo'', ''1mo'', ''1y'']"
    using d e by blast
  have f: "fetch_data limited_history ''3mo'' [''INFY.NS''] 0 =
     (Inr [(''INFY.NS'', demo_bars)],
      \<lparr>data = [(''INFY.NS'', demo_bars)], calls = 4,
       fetch_events =
         [Log INFO (Attempting ''INFY.NS'' ''3mo''), TickerInfo ''INFY.NS'',
          Log INFO (InfoRetrieved ''INFY.NS''), TickerHistory ''INFY.NS'' ''3mo'',
          Log ERROR (FetchError ''INFY.NS'' ''3mo'' ''429 Too Many Requests''),
          Log INFO RateLimited, Sleep 5,
          Log INFO (Attempting ''INFY.NS'' ''3mo''), TickerInfo ''INFY.NS'',
          Log INFO (InfoRetrieved ''INFY.NS''), TickerHistory ''INFY.NS'' ''3mo'',
          Log INFO (Retrieved 4 ''INFY.NS'' ''3mo'')]\<rparr>)"
    by (simp add: fetch_eval limited_history_def rl1 demo_bars_def)
  show ?thesis
    using a' b' c' d' e e' f i1 i2 h2 i3 h3 rl1 rl2 rl3 rl4 by (simp only: simp_thms)
qed






section \<open>The orchestrator and the reporters\<close>

lemma attempt_kind:
  assumes "attempt P symbol period st = (r, st')" and "list_all fetch_kind (fetch_events st)"
  shows "list_all fetch_kind (fetch_events st')"
proof -
  obtain ri where ri: "ticker_info P (calls st) symbol = ri" by simp
  obtain rh where rh: "ticker_history P (Suc (calls st)) symbol period = rh" by simp
  show ?thesis
    using assms ri rh
    unfolding attempt_def attempt_try_def attempt_except_def info_try_def info_except_def
      try_except_def call_info_def call_history_def emit_def Let_def
    by (cases ri; cases rh) (auto split: exn.splits if_splits)
qed

lemma try_periods_kind:
  assumes "try_periods P symbol periods st = (r, st')" and "list_all fetch_kind (fetch_events st)"
  shows "list_all fetch_kind (fetch_events st')"
  using assms
proof (induction periods arbitrary: st)
  case Nil
  then show ?case by auto
next
  case (Cons period rest)
  obtain r1 st1 where a: "attempt P symbol period st = (r1, st1)"
    by (cases "attempt P symbol period st")
  have k: "list_all fetch_kind (fetch_events st1)" by (rule attempt_kind[OF a Cons.prems(2)])
  show ?case
  proof (cases r1)
    case (Inl e)
    then show ?thesis using Cons.prems(1) a k by auto
  next
    case (Inr f)
    show ?thesis
    proof (cases f)
      case Break
      then show ?thesis using Cons.prems(1) a k Inr by auto
    next
      case Go
      then have "try_periods P symbol rest st1 = (r, st')" using Cons.prems(1) a Inr by simp
      then show ?thesis using Cons.IH k by blast
    next
      case Continue
      then have "try_periods P symbol rest st1 = (r, st')" using Cons.prems(1) a Inr by simp
      then show ?thesis using Cons.IH k by blast
    qed
  qed
qed

lemma fetch_symbols_kind:
  assumes "fetch_symbols P periods i symbols st = (r, st')"
    and "list_all fetch_kind (fetch_events st)"
  shows "list_all fetch_kind (fetch_events st')"
  using assms
proof (induction symbols arbitrary: st i)
  case Nil
  then show ?case by auto
next
  case (Cons symbol rest)
  let ?st0 = "if i > 0 then emit [Sleep 2] st else st"
  have k0: "list_all fetch_kind (fetch_events ?st0)" using Cons.prems(2) by (simp add: emit_def)
  obtain r1 st1 where t: "try_periods P symbol periods ?st0 = (r1, st1)"
    by (cases "try_periods P symbol periods ?st0")
  have k1: "list_all fetch_kind (fetch_events st1)" by (rule try_periods_kind[OF t k0])
  show ?case
  proof (cases r1)
    case (Inl e)
    then show ?thesis using Cons.prems(1) t k1 by auto
  next
    case (Inr b)
    let ?st2 = "if \<not> b then emit [Log ERROR (FailedAllPeriods symbol)] st1 else st1"
    have k2: "list_all fetch_kind (fetch_events ?st2)" using k1 by (simp add: emit_def)
    have "fetch_symbols P periods (Suc i) rest ?st2 = (r, st')"
      using Cons.prems(1) t Inr by simp
    then show ?thesis using Cons.IH k2 by blast
  qed
qed

lemma fetch_data_kind:
  "list_all fetch_kind (fetch_events (snd (fetch_data P period symbols n)))"
proof -
  let ?init = "\<lparr>data = [], calls = n, fetch_events = []\<rparr>"
  let ?periods = "[period, ''3mo'', ''1mo'', ''1y'']"
  obtain r st where f: "fetch_symbols P ?periods 0 symbols ?init = (r, st)"
    by (cases "fetch_symbols P ?periods 0 symbols ?init")
  have k: "list_all fetch_kind (fetch_events st)"
    by (rule fetch_symbols_kind[OF f]) simp
  show ?thesis unfolding fetch_data_def f using k
    by (cases r) (simp_all add: emit_def)
qed

text \<open>
  Without data \<open>run_system\<close> takes the early return: only the provider's call count and the
  event list change, the latter by the start record, the fetcher's events (pauses, log records
  and provider calls) and the abort record.
\<close>

lemma run_system_head_aborts:
  assumes "fst (fetch_data (provider W) (cfg_period sys) (cfg_symbols sys) (provider_calls sys)) = Inr []"
  shows "run_system_head W sys =
           (Inr Aborted,
            sys\<lparr>provider_calls :=
                  calls (snd (fetch_data (provider W) (cfg_period sys) (cfg_symbols sys)
                           (provider_calls sys))),
                run_events := run_events sys @ [Log INFO Starting] @
                  fetch_events (snd (fetch_data (provider W) (cfg_period sys) (cfg_symbols sys)
                                  (provider_calls sys))) @
                  [Log ERROR Aborting]\<rparr>) \<and>
         list_all fetch_kind
           (fetch_events (snd (fetch_data (provider W) (cfg_period sys) (cfg_symbols sys)
              (provider_calls sys))))"
proof -
  obtain r f where fd: "fetch_data (provider W) (cfg_period sys) (cfg_symbols sys) (provider_calls sys) = (r, f)"
    by (cases "fetch_data (provider W) (cfg_period sys) (cfg_symbols sys) (provider_calls sys)")
  have r: "r = Inr []" using assms fd by simp
  have "run_system_head W sys = (Inr Aborted, sys\<lparr>provider_calls := calls f,
      run_events := run_events sys @ [Log INFO Starting] @ fetch_events f @ [Log ERROR Aborting]\<rparr>)"
    unfolding run_system_head_def fd r by (simp add: Let_def)
  then show ?thesis
    using fetch_data_kind[of "provider W" "cfg_period sys" "cfg_symbols sys" "provider_calls sys"] fd
    by simp
qed

lemma fetch_bad_run:
  "fetch_data limited_history ''6mo'' [''BAD.NS''] 0 =
     (Inr [],
      \<lparr>data = [], calls = 8,
       fetch_events =
         [Log INFO (Attempting ''BAD.NS'' ''6mo''), TickerInfo ''BAD.NS'',
          Log INFO (InfoRetrieved ''BAD.NS''), TickerHistory ''BAD.NS'' ''6mo'',
          Log INFO (Retrieved 0 ''BAD.NS'' ''6mo''), Log WARNING (NoHistory ''BAD.NS'' ''6mo''),
          Log INFO (Attempting ''BAD.NS'' ''3mo''), TickerInfo ''BAD.NS'',
          Log INFO (InfoRetrieved ''BAD.NS''), TickerHistory ''BAD.NS'' ''3mo'',
          Log INFO (Retrieved 0 ''BAD.NS'' ''3mo''), Log WARNING (NoHistory ''BAD.NS'' ''3mo''),
          Log INFO (Attempting ''BAD.NS'' ''1mo''), TickerInfo ''BAD.NS'',
          Log INFO (InfoRetrieved ''BAD.NS''), TickerHistory ''BAD.NS'' ''1mo'',
          Log INFO (Retrieved 0 ''BAD.NS'' ''1mo''), Log WARNING (NoHistory ''BAD.NS'' ''1mo''),
          Log INFO (Attempting ''BAD.NS'' ''1y''), TickerInfo ''BAD.NS'',
          Log INFO (InfoRetrieved ''BAD.NS''), TickerHistory ''BAD.NS'' ''1y'',
          Log INFO (Retrieved 0 ''BAD.NS'' ''1y''), Log WARNING (NoHistory ''BAD.NS'' ''1y''),
          Log ERROR (FailedAllPeriods ''BAD.NS''), Log ERROR NoDataFetched]\<rparr>)"
  by (simp add: fetch_eval limited_history_def)

lemma demo_system_aborts:
  "fst (run_system_head demo_world (demo_system [''BAD.NS''])) = Inr Aborted \<and>
   reporters (snd (run_system_head demo_world (demo_system [''BAD.NS''])))
     = reporters (demo_system [''BAD.NS'']) \<and>
   ml_model (snd (run_system_head demo_world (demo_system [''BAD.NS'']))) = empty_trainer \<and>
   strategy_signals (snd (run_system_head demo_world (demo_system [''BAD.NS'']))) = []"
proof -
  have f: "fetch_data (provider demo_world) (cfg_period (demo_system [''BAD.NS'']))
             (cfg_symbols (demo_system [''BAD.NS''])) (provider_calls (demo_system [''BAD.NS'']))
           = fetch_data limited_history ''6mo'' [''BAD.NS''] 0"
    by (simp add: demo_world_def demo_system_def TradingSystem_def split: prod.splits)
  have h: "fst (fetch_data (provider demo_world) (cfg_period (demo_system [''BAD.NS'']))
             (cfg_symbols (demo_system [''BAD.NS''])) (provider_calls (demo_system [''BAD.NS'']))) = Inr []"
    unfolding f fetch_bad_run by simp
  show ?thesis
    using run_system_head_aborts[OF h]
    by (simp add: demo_system_def TradingSystem_def empty_trainer_def split: prod.splits)
qed


















end

